theory Spec2Isabelle
  imports Main "HOL-Library.Sublist" "HOL-Library.Word"
begin

section \<open>Sigil find and replace: the search panel of \<^verbatim>\<open>src/MainUI/FindReplace.cpp\<close>\<close>

text \<open>
  The development embeds the cross-file search logic of the class \<^verbatim>\<open>FindReplace\<close>:
  the control string, the construction of the search regex, the list of files to
  search, the walk over that list, and the operations Find, Count, Replace and
  ReplaceAll. The object's members and the values of its widgets are the fields of a
  record that every operation takes and returns. The main window, the text editor of
  the current tab, the resources and the Qt string functions are outside the file; they
  are the fields of a second record of functions, passed to every operation.
\<close>

subsection \<open>Enumerations\<close>

text \<open>
  The enumerations are declared in \<^verbatim>\<open>FindReplace.h\<close>, \<^verbatim>\<open>Searchable.h\<close> and
  \<^verbatim>\<open>Resource.h\<close>. The file uses their values only as indices into the three tables
  \<^verbatim>\<open>MDS\<close>, \<^verbatim>\<open>DRS\<close> and \<^verbatim>\<open>TGTS\<close>, which by the file's own comment are kept in step
  with the enumerations; the constructors below are listed in the order of the tables.
\<close>

datatype SearchMode = SearchMode_Normal | SearchMode_Case_Sensitive | SearchMode_Regex

datatype LookWhere =
    LookWhere_CurrentFile
  | LookWhere_AllHTMLFiles
  | LookWhere_SelectedHTMLFiles
  | LookWhere_TabbedHTMLFiles
  | LookWhere_AllCSSFiles
  | LookWhere_SelectedCSSFiles
  | LookWhere_TabbedCSSFiles
  | LookWhere_OPFFile
  | LookWhere_NCXFile

datatype SearchDirection = SearchDirection_Down | SearchDirection_Up

datatype Direction = Direction_Up | Direction_Down

datatype ResourceType =
    HTMLResourceType | CSSResourceType | OPFResourceType | NCXResourceType
  | OtherResourceType

subsection \<open>The state of the panel\<close>

text \<open>
  A call made to the main window that a property below has to count. The list
  \<open>calls\<close> of the state records them in the order they are made.
\<close>

datatype 'r Call =
    Call_CountInFiles "'r list"
  | Call_SearchableCount
  | Call_ReplaceInAllFiles "'r list"
  | Call_SearchableReplaceAll
  | Call_SetModified bool
  | Call_ContentChangedExternally
  | Call_OpenResource 'r

text \<open>
  The fields are the text of the two line edits, the item data of the three combo
  boxes, the members of the object, whether the marked-text indicator is shown, the
  state of the main window (type \<open>'h\<close>) and the log of calls. Messages, the history
  of the combo boxes and the keyboard focus belong to the display and are left out.
\<close>

record ('r, 'h) FindReplace =
  cbFind :: string
  cbReplace :: string
  cbSearchMode :: SearchMode
  cbLookWhere :: LookWhere
  cbSearchDirection :: SearchDirection
  m_RegexOptionDotAll :: bool
  m_RegexOptionMinimalMatch :: bool
  m_RegexOptionAutoTokenise :: bool
  m_OptionWrap :: bool
  m_SpellCheck :: bool
  m_LookWhereCurrentFile :: bool
  MarkedTextIndicator :: bool
  m_PreviousSearch :: "string list"
  m_MainWindow :: 'h
  calls :: "'r Call list"

definition GetSearchMode :: "('r, 'h) FindReplace \<Rightarrow> SearchMode" where
  "GetSearchMode s = cbSearchMode s"

definition GetLookWhere :: "('r, 'h) FindReplace \<Rightarrow> LookWhere" where
  "GetLookWhere s = cbLookWhere s"

definition GetSearchDirection :: "('r, 'h) FindReplace \<Rightarrow> SearchDirection" where
  "GetSearchDirection s = cbSearchDirection s"

definition SetSearchMode :: "SearchMode \<Rightarrow> ('r, 'h) FindReplace \<Rightarrow> ('r, 'h) FindReplace" where
  "SetSearchMode m s = s\<lparr>cbSearchMode := m\<rparr>"

definition SetLookWhere :: "LookWhere \<Rightarrow> ('r, 'h) FindReplace \<Rightarrow> ('r, 'h) FindReplace" where
  "SetLookWhere w s = s\<lparr>cbLookWhere := w\<rparr>"

definition SetSearchDirection ::
  "SearchDirection \<Rightarrow> ('r, 'h) FindReplace \<Rightarrow> ('r, 'h) FindReplace" where
  "SetSearchDirection d s = s\<lparr>cbSearchDirection := d\<rparr>"

definition SetOptionWrap :: "bool \<Rightarrow> ('r, 'h) FindReplace \<Rightarrow> ('r, 'h) FindReplace" where
  "SetOptionWrap b s = s\<lparr>m_OptionWrap := b\<rparr>"

definition SetRegexOptionDotAll :: "bool \<Rightarrow> ('r, 'h) FindReplace \<Rightarrow> ('r, 'h) FindReplace" where
  "SetRegexOptionDotAll b s = s\<lparr>m_RegexOptionDotAll := b\<rparr>"

definition SetRegexOptionMinimalMatch ::
  "bool \<Rightarrow> ('r, 'h) FindReplace \<Rightarrow> ('r, 'h) FindReplace" where
  "SetRegexOptionMinimalMatch b s = s\<lparr>m_RegexOptionMinimalMatch := b\<rparr>"

definition SetRegexOptionAutoTokenise ::
  "bool \<Rightarrow> ('r, 'h) FindReplace \<Rightarrow> ('r, 'h) FindReplace" where
  "SetRegexOptionAutoTokenise b s = s\<lparr>m_RegexOptionAutoTokenise := b\<rparr>"

definition IsMarkedText :: "('r, 'h) FindReplace \<Rightarrow> bool" where
  "IsMarkedText s = MarkedTextIndicator s"

definition IsValidFindText :: "('r, 'h) FindReplace \<Rightarrow> bool" where
  "IsValidFindText s = (cbFind s \<noteq> [])"

definition isWhereHTML :: "('r, 'h) FindReplace \<Rightarrow> bool" where
  "isWhereHTML s =
     (if GetLookWhere s = LookWhere_AllHTMLFiles \<or>
         GetLookWhere s = LookWhere_SelectedHTMLFiles \<or>
         GetLookWhere s = LookWhere_TabbedHTMLFiles then True else False)"

definition isWhereCSS :: "('r, 'h) FindReplace \<Rightarrow> bool" where
  "isWhereCSS s =
     (if GetLookWhere s = LookWhere_AllCSSFiles \<or>
         GetLookWhere s = LookWhere_SelectedCSSFiles \<or>
         GetLookWhere s = LookWhere_TabbedCSSFiles then True else False)"

definition isWhereSelected :: "('r, 'h) FindReplace \<Rightarrow> bool" where
  "isWhereSelected s =
     (if GetLookWhere s = LookWhere_SelectedHTMLFiles \<or>
         GetLookWhere s = LookWhere_TabbedHTMLFiles \<or>
         GetLookWhere s = LookWhere_SelectedCSSFiles \<or>
         GetLookWhere s = LookWhere_TabbedCSSFiles \<or>
         GetLookWhere s = LookWhere_OPFFile \<or>
         GetLookWhere s = LookWhere_NCXFile then True else False)"

text \<open>
  Modelled from the spec: \<^verbatim>\<open>isWhereCF\<close>, \<^verbatim>\<open>isWhereOPF\<close> and \<^verbatim>\<open>isWhereNCX\<close> are
  members the file calls and does not define. They test the scope for the current
  file, the package-manifest file and the navigation file, as their three siblings
  above test it for the other scopes.
\<close>

definition isWhereCF :: "('r, 'h) FindReplace \<Rightarrow> bool" where
  "isWhereCF s = (GetLookWhere s = LookWhere_CurrentFile)"

definition isWhereOPF :: "('r, 'h) FindReplace \<Rightarrow> bool" where
  "isWhereOPF s = (GetLookWhere s = LookWhere_OPFFile)"

definition isWhereNCX :: "('r, 'h) FindReplace \<Rightarrow> bool" where
  "isWhereNCX s = (GetLookWhere s = LookWhere_NCXFile)"

definition GetSearchableDirection :: "('r, 'h) FindReplace \<Rightarrow> Direction" where
  "GetSearchableDirection s =
     (if GetSearchDirection s = SearchDirection_Up then Direction_Up else Direction_Down)"

subsection \<open>The collaborators\<close>

text \<open>
  Everything the file calls and does not define: two functions of Qt on strings, the
  resource lists and the other services of the main window, the attributes of a
  resource, the text editor of the current tab (the \<^verbatim>\<open>Searchable\<close>), the bulk
  operations of \<^verbatim>\<open>SearchOperations\<close>, and the member
  \<^verbatim>\<open>ResourceContainsCurrentRegex\<close>. A resource pointer is a value of type \<open>'r\<close>;
  equality of pointers is equality of these values. The pointers in the lists and the
  pointer to the current resource are taken to be non-null.

  \<open>OpenResourceAndWaitUntilLoaded\<close> takes the position as an option: \<open>None\<close> is the
  call with the resource alone, \<open>Some pos\<close> the call with line \<open>-1\<close> and position
  \<open>pos\<close>. \<open>GetTextLength\<close> is the cast to \<^verbatim>\<open>TextResource\<close> followed by the length
  of its text, \<open>None\<close> when the cast fails. A function that may change the documents
  or the tabs returns the new state of the main window.

  A count is a C++ \<^verbatim>\<open>int\<close>: a word of 32 bits, whose addition wraps and which the
  comparison \<open><s\<close> reads as signed.
\<close>

record ('r, 'h) Collaborators =
  replace_R_by_newline :: "string \<Rightarrow> string"
  escape :: "string \<Rightarrow> string"
  GetAllHTMLResources :: "'h \<Rightarrow> 'r list"
  GetValidSelectedHTMLResources :: "'h \<Rightarrow> 'r list"
  GetTabbedHTMLResources :: "'h \<Rightarrow> 'r list"
  GetAllCSSResources :: "'h \<Rightarrow> 'r list"
  GetValidSelectedCSSResources :: "'h \<Rightarrow> 'r list"
  GetTabbedCSSResources :: "'h \<Rightarrow> 'r list"
  GetOPFResource :: "'h \<Rightarrow> 'r list"
  GetNCXResource :: "'h \<Rightarrow> 'r list"
  GetLoadedResource :: "'h \<Rightarrow> 'r"
  Type :: "'r \<Rightarrow> ResourceType"
  GetRelativePath :: "'r \<Rightarrow> string"
  GetTextLength :: "'h \<Rightarrow> 'r \<Rightarrow> nat option"
  ResourceContainsCurrentRegex :: "('r, 'h) FindReplace \<Rightarrow> 'r \<Rightarrow> bool"
  GetSearchableContent :: "'h \<Rightarrow> bool"
  Searchable_FindNext ::
    "'h \<Rightarrow> string \<Rightarrow> Direction \<Rightarrow> bool \<Rightarrow> bool \<Rightarrow> bool \<Rightarrow> bool \<Rightarrow> bool \<times> 'h"
  Searchable_Count :: "'h \<Rightarrow> string \<Rightarrow> Direction \<Rightarrow> bool \<Rightarrow> bool \<Rightarrow> 32 word"
  Searchable_ReplaceSelected ::
    "'h \<Rightarrow> string \<Rightarrow> string \<Rightarrow> Direction \<Rightarrow> bool \<Rightarrow> bool \<times> 'h"
  Searchable_ReplaceAll ::
    "'h \<Rightarrow> string \<Rightarrow> string \<Rightarrow> Direction \<Rightarrow> bool \<Rightarrow> bool \<Rightarrow> 32 word \<times> 'h"
  SearchOperations_CountInFiles :: "'h \<Rightarrow> string \<Rightarrow> 'r list \<Rightarrow> 32 word"
  SearchOperations_ReplaceInAllFIles ::
    "'h \<Rightarrow> string \<Rightarrow> string \<Rightarrow> 'r list \<Rightarrow> 32 word \<times> 'h"
  OpenResourceAndWaitUntilLoaded :: "'h \<Rightarrow> 'r \<Rightarrow> nat option \<Rightarrow> 'h"
  SelectResources :: "'h \<Rightarrow> 'r list \<Rightarrow> 'h"
  SaveTabContent :: "'h \<Rightarrow> 'h"

subsection \<open>The control string\<close>

definition TGTS_at :: "LookWhere \<Rightarrow> string" where
  "TGTS_at w = (case w of
       LookWhere_CurrentFile \<Rightarrow> ''CF''
     | LookWhere_AllHTMLFiles \<Rightarrow> ''AH''
     | LookWhere_SelectedHTMLFiles \<Rightarrow> ''SH''
     | LookWhere_TabbedHTMLFiles \<Rightarrow> ''TH''
     | LookWhere_AllCSSFiles \<Rightarrow> ''AC''
     | LookWhere_SelectedCSSFiles \<Rightarrow> ''SC''
     | LookWhere_TabbedCSSFiles \<Rightarrow> ''TC''
     | LookWhere_OPFFile \<Rightarrow> ''OP''
     | LookWhere_NCXFile \<Rightarrow> ''NX'')"

definition MDS_at :: "SearchMode \<Rightarrow> string" where
  "MDS_at m = (case m of
       SearchMode_Normal \<Rightarrow> ''NL''
     | SearchMode_Case_Sensitive \<Rightarrow> ''CS''
     | SearchMode_Regex \<Rightarrow> ''RX'')"

definition DRS_at :: "SearchDirection \<Rightarrow> string" where
  "DRS_at d = (case d of SearchDirection_Down \<Rightarrow> ''DN'' | SearchDirection_Up \<Rightarrow> ''UP'')"

text \<open>\<^verbatim>\<open>QStringList::join(' ')\<close> and \<^verbatim>\<open>QString::contains\<close>.\<close>

fun join_space :: "string list \<Rightarrow> string" where
  "join_space [] = []"
| "join_space [x] = x"
| "join_space (x # y # ys) = x @ CHR '' '' # join_space (y # ys)"

fun contains_str :: "string \<Rightarrow> string \<Rightarrow> bool" where
  "contains_str [] tok = (tok = [])"
| "contains_str (c # cs) tok = (prefix tok (c # cs) \<or> contains_str cs tok)"

definition GetControls :: "('r, 'h) FindReplace \<Rightarrow> string" where
  "GetControls s =
     join_space
       ([MDS_at (GetSearchMode s)]
        @ (if m_RegexOptionDotAll s then [''DA''] else [])
        @ (if m_RegexOptionMinimalMatch s then [''MM''] else [])
        @ (if m_RegexOptionAutoTokenise s then [''AT''] else [])
        @ (if m_OptionWrap s then [''WR''] else [])
        @ [DRS_at (GetSearchDirection s)]
        @ [TGTS_at (GetLookWhere s)])"

definition UpdateSearchControls ::
  "string \<Rightarrow> ('r, 'h) FindReplace \<Rightarrow> ('r, 'h) FindReplace" where
  "UpdateSearchControls text s =
     (if text = [] then s
      else
        let s1 =
              (if contains_str text ''NL'' then SetSearchMode SearchMode_Normal s
               else if contains_str text ''RX'' then SetSearchMode SearchMode_Regex s
               else if contains_str text ''CS'' then SetSearchMode SearchMode_Case_Sensitive s
               else s);
            s2 =
              (if contains_str text ''CF'' then SetLookWhere LookWhere_CurrentFile s1
               else if contains_str text ''AH'' then SetLookWhere LookWhere_AllHTMLFiles s1
               else if contains_str text ''SH'' then SetLookWhere LookWhere_SelectedHTMLFiles s1
               else if contains_str text ''TH'' then SetLookWhere LookWhere_TabbedHTMLFiles s1
               else if contains_str text ''AC'' then SetLookWhere LookWhere_AllCSSFiles s1
               else if contains_str text ''SC'' then SetLookWhere LookWhere_SelectedCSSFiles s1
               else if contains_str text ''TC'' then SetLookWhere LookWhere_TabbedCSSFiles s1
               else if contains_str text ''OP'' then SetLookWhere LookWhere_OPFFile s1
               else if contains_str text ''NX'' then SetLookWhere LookWhere_NCXFile s1
               else s1);
            s3 =
              (if contains_str text ''UP'' then SetSearchDirection SearchDirection_Up s2
               else if contains_str text ''DN'' then SetSearchDirection SearchDirection_Down s2
               else s2);
            s4 = SetOptionWrap (contains_str text ''WR'') s3;
            s5 = SetRegexOptionDotAll (contains_str text ''DA'') s4;
            s6 = SetRegexOptionMinimalMatch (contains_str text ''MM'') s5
        in SetRegexOptionAutoTokenise (contains_str text ''AT'') s6)"

definition SetPreviousSearch :: "('r, 'h) FindReplace \<Rightarrow> ('r, 'h) FindReplace" where
  "SetPreviousSearch s = s\<lparr>m_PreviousSearch := [cbFind s, cbReplace s, GetControls s]\<rparr>"

definition IsNewSearch :: "('r, 'h) FindReplace \<Rightarrow> bool" where
  "IsNewSearch s =
     (if length (m_PreviousSearch s) \<noteq> 3 then True
      else if m_PreviousSearch s ! 0 \<noteq> cbFind s then True
      else if m_PreviousSearch s ! 1 \<noteq> cbReplace s then True
      else if m_PreviousSearch s ! 2 \<noteq> GetControls s then True
      else False)"

subsection \<open>The search regex\<close>

definition REGEX_OPTION_UCP :: string where
  "REGEX_OPTION_UCP = ''(*UCP)''"

definition REGEX_OPTION_IGNORE_CASE :: string where
  "REGEX_OPTION_IGNORE_CASE = ''(?i)''"

definition REGEX_OPTION_DOT_ALL :: string where
  "REGEX_OPTION_DOT_ALL = ''(?s)''"

definition REGEX_OPTION_MINIMAL_MATCH :: string where
  "REGEX_OPTION_MINIMAL_MATCH = ''(?U)''"

text \<open>
  \<^verbatim>\<open>startsWith\<close> is \<open>prefix\<close>, \<^verbatim>\<open>mid(n)\<close> is \<open>drop n\<close>, and \<^verbatim>\<open>%\<close> concatenates.
\<close>

definition PrependRegexOptionToSearch :: "string \<Rightarrow> string \<Rightarrow> string" where
  "PrependRegexOptionToSearch option search =
     (if prefix REGEX_OPTION_UCP search
      then REGEX_OPTION_UCP @ option @ drop (length REGEX_OPTION_UCP) search
      else option @ search)"

text \<open>
  In spell-check mode the function returns the null string. Otherwise the text of the
  find field has its newline sequences replaced, and the mode and the two regex flags
  decide the rest.
\<close>

definition GetSearchRegex :: "('r, 'h) Collaborators \<Rightarrow> ('r, 'h) FindReplace \<Rightarrow> string" where
  "GetSearchRegex c s =
     (if m_SpellCheck s then []
      else
        let text = replace_R_by_newline c (cbFind s);
            search = text
        in if GetSearchMode s = SearchMode_Normal \<or> GetSearchMode s = SearchMode_Case_Sensitive
           then
             let search = escape c search
             in if GetSearchMode s = SearchMode_Normal
                then PrependRegexOptionToSearch REGEX_OPTION_IGNORE_CASE search
                else search
           else
             let search = (if m_RegexOptionDotAll s
                           then PrependRegexOptionToSearch REGEX_OPTION_DOT_ALL search
                           else search);
                 search = (if m_RegexOptionMinimalMatch s
                           then PrependRegexOptionToSearch REGEX_OPTION_MINIMAL_MATCH search
                           else search)
             in search)"

subsection \<open>The files to search\<close>

text \<open>
  The scope selects one list of the main window; the current-file scope selects none
  and leaves the list empty. \<^verbatim>\<open>GetFilesToSearch\<close> and \<^verbatim>\<open>SetFirstResource\<close> both start
  with this chain of tests.
\<close>

definition ScopedResources :: "('r, 'h) Collaborators \<Rightarrow> ('r, 'h) FindReplace \<Rightarrow> 'r list" where
  "ScopedResources c s =
     (if GetLookWhere s = LookWhere_AllHTMLFiles then GetAllHTMLResources c (m_MainWindow s)
      else if GetLookWhere s = LookWhere_SelectedHTMLFiles
        then GetValidSelectedHTMLResources c (m_MainWindow s)
      else if GetLookWhere s = LookWhere_TabbedHTMLFiles
        then GetTabbedHTMLResources c (m_MainWindow s)
      else if GetLookWhere s = LookWhere_AllCSSFiles then GetAllCSSResources c (m_MainWindow s)
      else if GetLookWhere s = LookWhere_SelectedCSSFiles
        then GetValidSelectedCSSResources c (m_MainWindow s)
      else if GetLookWhere s = LookWhere_TabbedCSSFiles
        then GetTabbedCSSResources c (m_MainWindow s)
      else if GetLookWhere s = LookWhere_OPFFile then GetOPFResource c (m_MainWindow s)
      else if GetLookWhere s = LookWhere_NCXFile then GetNCXResource c (m_MainWindow s)
      else [])"

definition GetCurrentResource :: "('r, 'h) Collaborators \<Rightarrow> ('r, 'h) FindReplace \<Rightarrow> 'r" where
  "GetCurrentResource c s = GetLoadedResource c (m_MainWindow s)"

text \<open>
  The two loops of \<^verbatim>\<open>GetFilesToSearch\<close>: the first appends each resource and breaks
  after the current one; the second appends from the moment \<open>keep\<close> is set.
\<close>

fun append_until_current :: "'r \<Rightarrow> 'r list \<Rightarrow> 'r list" where
  "append_until_current current_resource [] = []"
| "append_until_current current_resource (resource # rest) =
     resource # (if resource = current_resource then []
                 else append_until_current current_resource rest)"

fun append_when_keep :: "'r \<Rightarrow> bool \<Rightarrow> 'r list \<Rightarrow> 'r list" where
  "append_when_keep current_resource keep [] = []"
| "append_when_keep current_resource keep (resource # rest) =
     (let keep = (if resource = current_resource then True else keep)
      in (if keep then [resource] else []) @ append_when_keep current_resource keep rest)"

definition GetFilesToSearch :: "('r, 'h) Collaborators \<Rightarrow> ('r, 'h) FindReplace \<Rightarrow> 'r list" where
  "GetFilesToSearch c s =
     (let all_resources = ScopedResources c s;
          current_resource = GetCurrentResource c s
      in if m_OptionWrap s \<or> current_resource \<notin> set all_resources then all_resources
         else if GetSearchDirection s = SearchDirection_Up
           then append_until_current current_resource all_resources
         else append_when_keep current_resource False all_resources)"

text \<open>The loop of \<^verbatim>\<open>IsCurrentFileInSelection\<close>: is there a resource with this path?\<close>

fun any_with_path :: "('r \<Rightarrow> string) \<Rightarrow> string \<Rightarrow> 'r list \<Rightarrow> bool" where
  "any_with_path path p [] = False"
| "any_with_path path p (resource # rest) =
     (if path resource = p then True else any_with_path path p rest)"

definition IsCurrentFileInSelection ::
  "('r, 'h) Collaborators \<Rightarrow> ('r, 'h) FindReplace \<Rightarrow> bool" where
  "IsCurrentFileInSelection c s =
     (let resources = GetFilesToSearch c s;
          current_resource = GetCurrentResource c s
      in any_with_path (GetRelativePath c) (GetRelativePath c current_resource) resources)"

subsection \<open>The walk over the files\<close>

text \<open>
  The loop of \<^verbatim>\<open>GetNextResource\<close>: the index of the first resource with the path,
  counted from \<open>i\<close>, and \<open>0\<close> when there is none.
\<close>

fun reading_order_of :: "('r \<Rightarrow> string) \<Rightarrow> string \<Rightarrow> 'r list \<Rightarrow> int \<Rightarrow> int" where
  "reading_order_of path p [] i = 0"
| "reading_order_of path p (resource # rest) i =
     (if path resource = p then i else reading_order_of path p rest (i + 1))"

text \<open>A null pointer is \<open>None\<close>.\<close>

definition GetNextResource ::
  "('r, 'h) Collaborators \<Rightarrow> ('r, 'h) FindReplace \<Rightarrow> 'r option \<Rightarrow> Direction \<Rightarrow> 'r option" where
  "GetNextResource c s current_resource direction =
     (let resources = GetFilesToSearch c s;
          max_reading_order = int (length resources) - 1;
          current_reading_order =
            (case current_resource of
               None \<Rightarrow> 0
             | Some cr \<Rightarrow>
                 reading_order_of (GetRelativePath c) (GetRelativePath c cr) resources 0);
          next_reading_order =
            (if direction = Direction_Up
             then (if current_reading_order - 1 \<ge> 0 then current_reading_order - 1
                   else max_reading_order)
             else (if current_reading_order + 1 \<le> max_reading_order
                   then current_reading_order + 1 else 0))
      in if next_reading_order > max_reading_order \<or> next_reading_order < 0 then None
         else Some (resources ! nat next_reading_order))"

text \<open>
  The \<^verbatim>\<open>while\<close> loop of \<^verbatim>\<open>GetNextContainingResource\<close>. The result is the resource
  returned (\<open>None\<close> is the null pointer) with the list of the resources given to
  \<^verbatim>\<open>ResourceContainsCurrentRegex\<close>, in order. A loop that never ends has the value
  \<open>None\<close>.
\<close>

partial_function (option) containing_loop ::
  "('r, 'h) Collaborators \<Rightarrow> ('r, 'h) FindReplace \<Rightarrow> Direction \<Rightarrow> 'r option \<Rightarrow> 'r option
     \<Rightarrow> bool \<Rightarrow> 'r list \<Rightarrow> ('r option \<times> 'r list) option" where
  "containing_loop c s direction starting_resource next_resource passed_starting_resource tested =
     (if \<not> passed_starting_resource \<or> next_resource \<noteq> starting_resource then
        let next_resource = GetNextResource c s next_resource direction
        in if next_resource = starting_resource \<and> \<not> m_OptionWrap s then Some (None, tested)
           else
             let passed_starting_resource =
                   (if next_resource = starting_resource then True
                    else passed_starting_resource)
             in (case next_resource of
                   Some r \<Rightarrow>
                     if ResourceContainsCurrentRegex c s r then Some (Some r, tested @ [r])
                     else containing_loop c s direction starting_resource next_resource
                            passed_starting_resource (tested @ [r])
                 | None \<Rightarrow> Some (None, tested))
      else Some (None, tested))"

declare containing_loop.simps [code]

text \<open>
  The first part of \<^verbatim>\<open>GetNextContainingResource\<close>, for a list \<open>resources\<close> that
  is not empty: the resource the walk starts from. It is the current resource when its
  type is the type of the scope, unless the scope is a selection that the current
  resource is not in; otherwise it is the first resource of the list when the walk
  goes up and the last when it goes down.
\<close>

definition StartingResource ::
  "('r, 'h) Collaborators \<Rightarrow> ('r, 'h) FindReplace \<Rightarrow> Direction \<Rightarrow> 'r option" where
  "StartingResource c s direction =
     (let current_resource = GetCurrentResource c s;
          starting_resource =
            (if isWhereHTML s \<and> Type c current_resource = HTMLResourceType
               then Some current_resource
             else if isWhereCSS s \<and> Type c current_resource = CSSResourceType
               then Some current_resource
             else if isWhereOPF s \<and> Type c current_resource = OPFResourceType
               then Some current_resource
             else if isWhereNCX s \<and> Type c current_resource = NCXResourceType
               then Some current_resource
             else None);
          resources = GetFilesToSearch c s
      in if starting_resource = None \<or> (isWhereSelected s \<and> \<not> IsCurrentFileInSelection c s)
         then (if direction = Direction_Up then Some (hd resources)
               else Some (last resources))
         else starting_resource)"

definition GetNextContainingResource ::
  "('r, 'h) Collaborators \<Rightarrow> ('r, 'h) FindReplace \<Rightarrow> Direction
     \<Rightarrow> ('r option \<times> 'r list) option" where
  "GetNextContainingResource c s direction =
     (let resources = GetFilesToSearch c s
      in if resources = [] then Some (None, [])
         else
           let starting_resource = StartingResource c s direction;
               next_resource = starting_resource
           in if length resources = 1 \<and> \<not> m_OptionWrap s then
                (if IsCurrentFileInSelection c s then Some (None, [])
                 else (case next_resource of
                         Some r \<Rightarrow>
                           if ResourceContainsCurrentRegex c s r then Some (Some r, [r])
                           else Some (None, [r])
                       | None \<Rightarrow> Some (None, [])))
              else containing_loop c s direction starting_resource next_resource False [])"

subsection \<open>The operations\<close>

text \<open>
  \<^verbatim>\<open>QList::first\<close> and \<^verbatim>\<open>QList::last\<close> require a list that is not empty; on an
  empty list they read outside the list, and the model returns an error.
\<close>

datatype error = OutOfBounds

definition QList_first :: "'a list \<Rightarrow> error + 'a" where
  "QList_first xs = (case xs of [] \<Rightarrow> Inl OutOfBounds | x # _ \<Rightarrow> Inr x)"

definition QList_last :: "'a list \<Rightarrow> error + 'a" where
  "QList_last xs = (case xs of [] \<Rightarrow> Inl OutOfBounds | _ # _ \<Rightarrow> Inr (last xs))"

definition log_call :: "'r Call \<Rightarrow> ('r, 'h) FindReplace \<Rightarrow> ('r, 'h) FindReplace" where
  "log_call e s = s\<lparr>calls := calls s @ [e]\<rparr>"

definition OpenResource ::
  "('r, 'h) Collaborators \<Rightarrow> 'r \<Rightarrow> nat option \<Rightarrow> ('r, 'h) FindReplace \<Rightarrow> ('r, 'h) FindReplace" where
  "OpenResource c resource pos s =
     log_call (Call_OpenResource resource)
       (s\<lparr>m_MainWindow := OpenResourceAndWaitUntilLoaded c (m_MainWindow s) resource pos\<rparr>)"

definition SetFirstResource ::
  "('r, 'h) Collaborators \<Rightarrow> bool \<Rightarrow> ('r, 'h) FindReplace \<Rightarrow> error + ('r, 'h) FindReplace" where
  "SetFirstResource c update_position s =
     (if isWhereCF s \<or> m_LookWhereCurrentFile s \<or> IsMarkedText s then Inr s
      else
        let resources = ScopedResources c s
        in case (if GetSearchDirection s = SearchDirection_Down
                 then (case QList_first resources of
                         Inl e \<Rightarrow> Inl e
                       | Inr first_resource \<Rightarrow> Inr (first_resource, 0))
                 else (case QList_last resources of
                         Inl e \<Rightarrow> Inl e
                       | Inr first_resource \<Rightarrow>
                           Inr (first_resource,
                                (case GetTextLength c (m_MainWindow s) first_resource of
                                   Some n \<Rightarrow> n
                                 | None \<Rightarrow> 0))))
           of Inl e \<Rightarrow> Inl e
            | Inr (first_resource, pos) \<Rightarrow>
                if update_position then Inr (OpenResource c first_resource (Some pos) s)
                else Inr (OpenResource c first_resource None s))"

text \<open>
  The first statement of Find, Count, Replace and ReplaceAll: a new search goes to the
  first resource and is remembered.
\<close>

definition NewSearchReset ::
  "('r, 'h) Collaborators \<Rightarrow> ('r, 'h) FindReplace \<Rightarrow> error + ('r, 'h) FindReplace" where
  "NewSearchReset c s =
     (if IsNewSearch s
      then (case SetFirstResource c True s of
              Inl e \<Rightarrow> Inl e
            | Inr s \<Rightarrow> Inr (SetPreviousSearch s))
      else Inr s)"

text \<open>
  A call of \<^verbatim>\<open>FindNext\<close> on the text editor of the current tab, with the search
  regex; the arguments after the direction are passed as the source passes them, the
  last one being \<^verbatim>\<open>false\<close> where the source leaves it to its default.
\<close>

definition Searchable_FindNext_call ::
  "('r, 'h) Collaborators \<Rightarrow> Direction \<Rightarrow> bool \<Rightarrow> bool \<Rightarrow> bool \<Rightarrow> bool
     \<Rightarrow> ('r, 'h) FindReplace \<Rightarrow> bool \<times> ('r, 'h) FindReplace" where
  "Searchable_FindNext_call c direction a1 a2 a3 a4 s =
     (let (found, h) =
            Searchable_FindNext c (m_MainWindow s) (GetSearchRegex c s) direction a1 a2 a3 a4
      in (found, s\<lparr>m_MainWindow := h\<rparr>))"

definition FindInAllFiles ::
  "('r, 'h) Collaborators \<Rightarrow> Direction \<Rightarrow> ('r, 'h) FindReplace
     \<Rightarrow> (bool \<times> ('r, 'h) FindReplace) option" where
  "FindInAllFiles c direction s =
     (let searchable =
            (if IsCurrentFileInSelection c s then GetSearchableContent c (m_MainWindow s)
             else False);
          (found, s) =
            (if searchable
             then Searchable_FindNext_call c direction (m_SpellCheck s) False False False s
             else (False, s))
      in if \<not> found then
           (case GetNextContainingResource c s direction of
              None \<Rightarrow> None
            | Some (containing_resource, tested) \<Rightarrow>
                (case containing_resource of
                   Some r \<Rightarrow>
                     let selected_resources = GetFilesToSearch c s;
                         s = OpenResource c r None s;
                         s = (if isWhereSelected s \<and> \<not> m_SpellCheck s
                              then s\<lparr>m_MainWindow :=
                                       SelectResources c (m_MainWindow s) selected_resources\<rparr>
                              else s)
                     in if GetSearchableContent c (m_MainWindow s)
                        then Some (Searchable_FindNext_call c direction (m_SpellCheck s)
                                     True False False s)
                        else Some (found, s)
                 | None \<Rightarrow>
                     if searchable
                     then Some (Searchable_FindNext_call c direction (m_SpellCheck s)
                                  False False False s)
                     else Some (found, s)))
         else Some (found, s))"

definition FindText ::
  "('r, 'h) Collaborators \<Rightarrow> Direction \<Rightarrow> ('r, 'h) FindReplace
     \<Rightarrow> (bool \<times> ('r, 'h) FindReplace) option" where
  "FindText c direction s =
     (if \<not> IsValidFindText s then Some (False, s)
      else if isWhereCF s \<or> m_LookWhereCurrentFile s \<or> IsMarkedText s then
        (if \<not> GetSearchableContent c (m_MainWindow s) then Some (False, s)
         else Some (Searchable_FindNext_call c direction False False (m_OptionWrap s)
                      (IsMarkedText s) s))
      else FindInAllFiles c direction s)"

definition FindNext ::
  "('r, 'h) Collaborators \<Rightarrow> ('r, 'h) FindReplace \<Rightarrow> (bool \<times> ('r, 'h) FindReplace) option" where
  "FindNext c s = FindText c Direction_Down s"

definition FindPrevious ::
  "('r, 'h) Collaborators \<Rightarrow> ('r, 'h) FindReplace \<Rightarrow> (bool \<times> ('r, 'h) FindReplace) option" where
  "FindPrevious c s = FindText c Direction_Up s"

text \<open>
  The result of Find and of Replace: \<open>None\<close> when the walk over the files never ends,
  \<open>Some (Inl e)\<close> when the reset of a new search fails, \<open>Some (Inr (found, s))\<close>
  otherwise.
\<close>

definition Find ::
  "('r, 'h) Collaborators \<Rightarrow> ('r, 'h) FindReplace
     \<Rightarrow> (error + bool \<times> ('r, 'h) FindReplace) option" where
  "Find c s =
     (case NewSearchReset c s of
        Inl e \<Rightarrow> Some (Inl e)
      | Inr s \<Rightarrow>
          map_option Inr
            (if GetSearchDirection s = SearchDirection_Up then FindPrevious c s
             else FindNext c s))"

definition CountInFiles ::
  "('r, 'h) Collaborators \<Rightarrow> ('r, 'h) FindReplace \<Rightarrow> 32 word \<times> ('r, 'h) FindReplace" where
  "CountInFiles c s =
     (let s = s\<lparr>m_MainWindow := SaveTabContent c (m_MainWindow s)\<rparr>;
          search_files = GetFilesToSearch c s;
          search_files =
            (if \<not> m_OptionWrap s then remove1 (GetCurrentResource c s) search_files
             else search_files)
      in (SearchOperations_CountInFiles c (m_MainWindow s) (GetSearchRegex c s) search_files,
          log_call (Call_CountInFiles search_files) s))"

definition Count ::
  "('r, 'h) Collaborators \<Rightarrow> ('r, 'h) FindReplace
     \<Rightarrow> error + 32 word \<times> ('r, 'h) FindReplace" where
  "Count c s =
     (case NewSearchReset c s of
        Inl e \<Rightarrow> Inl e
      | Inr s \<Rightarrow>
          if \<not> IsValidFindText s then Inr (0, s)
          else if isWhereCF s \<or> m_LookWhereCurrentFile s \<or> IsMarkedText s then
            (if \<not> GetSearchableContent c (m_MainWindow s) then Inr (0, s)
             else Inr (Searchable_Count c (m_MainWindow s) (GetSearchRegex c s)
                         (GetSearchableDirection s) (m_OptionWrap s) (IsMarkedText s),
                       log_call Call_SearchableCount s))
          else
            let (count, s) = CountInFiles c s
            in if \<not> m_OptionWrap s then
                 (if GetSearchableContent c (m_MainWindow s)
                  then Inr (count + Searchable_Count c (m_MainWindow s) (GetSearchRegex c s)
                                      (GetSearchableDirection s) (m_OptionWrap s) False,
                            log_call Call_SearchableCount s)
                  else Inr (count, s))
               else Inr (count, s))"

definition ReplaceInAllFiles ::
  "('r, 'h) Collaborators \<Rightarrow> ('r, 'h) FindReplace \<Rightarrow> 32 word \<times> ('r, 'h) FindReplace" where
  "ReplaceInAllFiles c s =
     (let s = s\<lparr>m_MainWindow := SaveTabContent c (m_MainWindow s)\<rparr>;
          search_files = GetFilesToSearch c s;
          search_files =
            (if \<not> m_OptionWrap s then remove1 (GetCurrentResource c s) search_files
             else search_files);
          (count, h) =
            SearchOperations_ReplaceInAllFIles c (m_MainWindow s) (GetSearchRegex c s)
              (cbReplace s) search_files
      in (count, log_call (Call_ReplaceInAllFiles search_files) (s\<lparr>m_MainWindow := h\<rparr>)))"

text \<open>
  A call of \<^verbatim>\<open>ReplaceAll\<close> on the text editor of the current tab; the last argument
  is \<^verbatim>\<open>false\<close> where the source leaves it to its default.
\<close>

definition Searchable_ReplaceAll_call ::
  "('r, 'h) Collaborators \<Rightarrow> bool \<Rightarrow> ('r, 'h) FindReplace
     \<Rightarrow> 32 word \<times> ('r, 'h) FindReplace" where
  "Searchable_ReplaceAll_call c marked s =
     (let (count, h) =
            Searchable_ReplaceAll c (m_MainWindow s) (GetSearchRegex c s) (cbReplace s)
              (GetSearchableDirection s) (m_OptionWrap s) marked
      in (count, log_call Call_SearchableReplaceAll (s\<lparr>m_MainWindow := h\<rparr>)))"

text \<open>
  The part of \<^verbatim>\<open>ReplaceAll\<close> after the counting: the book is marked as modified and
  the current tab is told that its content changed, when the count is positive.
\<close>

definition ReplaceAll_finish ::
  "32 word \<Rightarrow> ('r, 'h) FindReplace \<Rightarrow> 32 word \<times> ('r, 'h) FindReplace" where
  "ReplaceAll_finish count s =
     (let s = (if 0 <s count
               then log_call Call_ContentChangedExternally (log_call (Call_SetModified True) s)
               else s)
      in (count, s))"

definition ReplaceAll ::
  "('r, 'h) Collaborators \<Rightarrow> ('r, 'h) FindReplace
     \<Rightarrow> error + 32 word \<times> ('r, 'h) FindReplace" where
  "ReplaceAll c s =
     (let s = s\<lparr>m_MainWindow := SaveTabContent c (m_MainWindow s)\<rparr>
      in case NewSearchReset c s of
           Inl e \<Rightarrow> Inl e
         | Inr s \<Rightarrow>
             if \<not> IsValidFindText s then Inr (0, s)
             else if isWhereCF s \<or> m_LookWhereCurrentFile s \<or> IsMarkedText s then
               (if \<not> GetSearchableContent c (m_MainWindow s) then Inr (0, s)
                else
                  let (count, s) = Searchable_ReplaceAll_call c (IsMarkedText s) s
                  in Inr (ReplaceAll_finish count s))
             else
               let (count, s) = ReplaceInAllFiles c s;
                   (count, s) =
                     (if \<not> m_OptionWrap s then
                        (if GetSearchableContent c (m_MainWindow s)
                         then (let (n, s) = Searchable_ReplaceAll_call c False s
                               in (count + n, s))
                         else (count, s))
                      else (count, s))
               in Inr (ReplaceAll_finish count s))"

definition ReplaceText ::
  "('r, 'h) Collaborators \<Rightarrow> Direction \<Rightarrow> bool \<Rightarrow> ('r, 'h) FindReplace
     \<Rightarrow> (bool \<times> ('r, 'h) FindReplace) option" where
  "ReplaceText c direction replace_current s =
     (if \<not> IsValidFindText s then Some (False, s)
      else if \<not> GetSearchableContent c (m_MainWindow s) then Some (False, s)
      else
        let (found, h) =
              Searchable_ReplaceSelected c (m_MainWindow s) (GetSearchRegex c s) (cbReplace s)
                direction replace_current;
            s = s\<lparr>m_MainWindow := h\<rparr>
        in if \<not> replace_current then
             (if direction = Direction_Up then FindPrevious c s else FindNext c s)
           else Some (found, s))"

definition ReplaceNext ::
  "('r, 'h) Collaborators \<Rightarrow> ('r, 'h) FindReplace \<Rightarrow> (bool \<times> ('r, 'h) FindReplace) option" where
  "ReplaceNext c s = ReplaceText c Direction_Down False s"

definition ReplacePrevious ::
  "('r, 'h) Collaborators \<Rightarrow> ('r, 'h) FindReplace \<Rightarrow> (bool \<times> ('r, 'h) FindReplace) option" where
  "ReplacePrevious c s = ReplaceText c Direction_Up False s"

definition Replace ::
  "('r, 'h) Collaborators \<Rightarrow> ('r, 'h) FindReplace
     \<Rightarrow> (error + bool \<times> ('r, 'h) FindReplace) option" where
  "Replace c s =
     (case NewSearchReset c s of
        Inl e \<Rightarrow> Some (Inl e)
      | Inr s \<Rightarrow>
          map_option Inr
            (if GetSearchDirection s = SearchDirection_Up then ReplacePrevious c s
             else ReplaceNext c s))"

definition ReplaceCurrent ::
  "('r, 'h) Collaborators \<Rightarrow> ('r, 'h) FindReplace \<Rightarrow> (bool \<times> ('r, 'h) FindReplace) option" where
  "ReplaceCurrent c s =
     (if GetSearchDirection s = SearchDirection_Up then ReplaceText c Direction_Up True s
      else ReplaceText c Direction_Down True s)"

subsection \<open>Notions used in the statements\<close>

text \<open>
  What the main window is taken to guarantee about a scope: the listed resources and
  the current resource have pairwise different relative paths, and the list of all
  HTML files (of all CSS files) holds the current resource when that is an HTML file
  (a CSS file).
\<close>

definition catalog_consistent :: "('r, 'h) Collaborators \<Rightarrow> ('r, 'h) FindReplace \<Rightarrow> bool" where
  "catalog_consistent c s =
     (distinct (map (GetRelativePath c)
                 (List.insert (GetCurrentResource c s) (ScopedResources c s)))
      \<and> (if (GetLookWhere s = LookWhere_AllHTMLFiles
              \<and> Type c (GetCurrentResource c s) = HTMLResourceType)
            \<or> (GetLookWhere s = LookWhere_AllCSSFiles
              \<and> Type c (GetCurrentResource c s) = CSSResourceType)
          then GetCurrentResource c s \<in> set (ScopedResources c s)
          else True))"

text \<open>
  The search is over a set of files: the scope is not the current file, the Ctrl key
  does not restrict it to the current file, and no text is marked.
\<close>

definition corpus_scope :: "('r, 'h) FindReplace \<Rightarrow> bool" where
  "corpus_scope s = (\<not> (isWhereCF s \<or> m_LookWhereCurrentFile s \<or> IsMarkedText s))"

text \<open>
  In a list of \<open>n\<close> resources, the index that follows \<open>i\<close> in direction \<open>d\<close>, and the
  number of steps from \<open>i\<close> to the index \<open>si\<close> (a full round when \<open>i = si\<close>).
\<close>

definition next_index :: "Direction \<Rightarrow> nat \<Rightarrow> nat \<Rightarrow> nat" where
  "next_index d n i =
     (if d = Direction_Up then (if 1 \<le> i then i - 1 else n - 1)
      else (if i + 1 \<le> n - 1 then i + 1 else 0))"

definition steps_to :: "Direction \<Rightarrow> nat \<Rightarrow> nat \<Rightarrow> nat \<Rightarrow> nat" where
  "steps_to d n si i =
     (if d = Direction_Up then (if si < i then i - si else i + n - si)
      else (if i < si then si - i else si + n - i))"

text \<open>
  A token of the control string has two characters, neither of them a space; the
  tokens of a state are the strings that \<^verbatim>\<open>GetControls\<close> joins.
\<close>

definition two_letters :: "string \<Rightarrow> bool" where
  "two_letters tok = (length tok = 2 \<and> CHR '' '' \<notin> set tok)"

definition control_tokens :: "('r, 'h) FindReplace \<Rightarrow> string list" where
  "control_tokens s =
     [MDS_at (GetSearchMode s)]
     @ (if m_RegexOptionDotAll s then [''DA''] else [])
     @ (if m_RegexOptionMinimalMatch s then [''MM''] else [])
     @ (if m_RegexOptionAutoTokenise s then [''AT''] else [])
     @ (if m_OptionWrap s then [''WR''] else [])
     @ [DRS_at (GetSearchDirection s)]
     @ [TGTS_at (GetLookWhere s)]"

subsection \<open>A small book to run the operations on\<close>

text \<open>
  The two Qt functions on 8-bit characters: every newline sequence (CR LF, LF, VT, FF,
  CR, NEL) becomes one LF, and every character other than a letter, a digit or the
  underscore gets a backslash in front.
\<close>

definition is_newline_char :: "char \<Rightarrow> bool" where
  "is_newline_char a = (of_char a \<in> {10, 11, 12, 13, 133 :: nat})"

fun newlines_to_LF :: "string \<Rightarrow> string" where
  "newlines_to_LF [] = []"
| "newlines_to_LF [a] = (if is_newline_char a then [char_of (10 :: nat)] else [a])"
| "newlines_to_LF (a # b # rest) =
     (if of_char a = (13 :: nat) \<and> of_char b = (10 :: nat)
        then char_of (10 :: nat) # newlines_to_LF rest
      else if is_newline_char a then char_of (10 :: nat) # newlines_to_LF (b # rest)
      else a # newlines_to_LF (b # rest))"

definition is_word_char :: "char \<Rightarrow> bool" where
  "is_word_char a =
     (let n = (of_char a :: nat)
      in (97 \<le> n \<and> n \<le> 122) \<or> (65 \<le> n \<and> n \<le> 90) \<or> (48 \<le> n \<and> n \<le> 57) \<or> n = 95)"

fun quote_meta :: "string \<Rightarrow> string" where
  "quote_meta [] = []"
| "quote_meta (a # rest) =
     (if of_char a = (0 :: nat) then CHR 0x5C # CHR ''0'' # quote_meta rest
      else if is_word_char a then a # quote_meta rest
      else CHR 0x5C # a # quote_meta rest)"

text \<open>
  Three HTML files 1, 2 and 3, two CSS files 10 and 11, the OPF file 20 and the NCX file
  21; a resource from 30 on is an image, whose tab cannot be searched. The state of the
  main window is the resource of the current tab and whether a match is selected in
  it. Only file 3 has a match, twice.
\<close>

definition book :: "(nat, nat \<times> bool) Collaborators" where
  "book =
     \<lparr> replace_R_by_newline = newlines_to_LF,
       escape = quote_meta,
       GetAllHTMLResources = (\<lambda>h. [1, 2, 3]),
       GetValidSelectedHTMLResources = (\<lambda>h. [2, 3]),
       GetTabbedHTMLResources = (\<lambda>h. [3]),
       GetAllCSSResources = (\<lambda>h. [10, 11]),
       GetValidSelectedCSSResources = (\<lambda>h. []),
       GetTabbedCSSResources = (\<lambda>h. [10]),
       GetOPFResource = (\<lambda>h. [20]),
       GetNCXResource = (\<lambda>h. [21]),
       GetLoadedResource = fst,
       Type = (\<lambda>r. if r < 10 then HTMLResourceType else if r < 20 then CSSResourceType
                    else if r = 20 then OPFResourceType else if r = 21 then NCXResourceType
                    else OtherResourceType),
       GetRelativePath = (\<lambda>r. replicate r (CHR ''x'')),
       GetTextLength = (\<lambda>h r. Some 100),
       ResourceContainsCurrentRegex = (\<lambda>s r. r = 3),
       GetSearchableContent = (\<lambda>h. fst h < 30),
       Searchable_FindNext = (\<lambda>h regex d a1 a2 a3 a4. (fst h = 3, (fst h, fst h = 3))),
       Searchable_Count = (\<lambda>h regex d wrap marked. if fst h = 3 then 2 else 0),
       Searchable_ReplaceSelected = (\<lambda>h regex r d stay. (snd h, (fst h, False))),
       Searchable_ReplaceAll = (\<lambda>h regex r d wrap marked. (if fst h = 3 then 2 else 0, h)),
       SearchOperations_CountInFiles = (\<lambda>h regex files. 2 * of_nat (count_list files 3)),
       SearchOperations_ReplaceInAllFIles =
         (\<lambda>h regex r files. (2 * of_nat (count_list files 3), h)),
       OpenResourceAndWaitUntilLoaded = (\<lambda>h r pos. (r, False)),
       SelectResources = (\<lambda>h rs. h),
       SaveTabContent = (\<lambda>h. h) \<rparr>"

text \<open>
  The panel with the find text \<open>cat\<close>, a case-insensitive search down all HTML files
  without wrap, file 1 in the current tab, and the search already remembered.
\<close>

definition panel :: "(nat, nat \<times> bool) FindReplace" where
  "panel =
     \<lparr> cbFind = ''cat'',
       cbReplace = ''dog'',
       cbSearchMode = SearchMode_Normal,
       cbLookWhere = LookWhere_AllHTMLFiles,
       cbSearchDirection = SearchDirection_Down,
       m_RegexOptionDotAll = False,
       m_RegexOptionMinimalMatch = False,
       m_RegexOptionAutoTokenise = False,
       m_OptionWrap = False,
       m_SpellCheck = False,
       m_LookWhereCurrentFile = False,
       MarkedTextIndicator = False,
       m_PreviousSearch = [''cat'', ''dog'', ''NL DN AH''],
       m_MainWindow = (1, False),
       calls = [] \<rparr>"

text \<open>
  The two notifications of a replacement: the book is modified, the content of the
  current tab changed.
\<close>

fun is_notification :: "'r Call \<Rightarrow> bool" where
  "is_notification (Call_SetModified b) = True"
| "is_notification Call_ContentChangedExternally = True"
| "is_notification (Call_CountInFiles files) = False"
| "is_notification Call_SearchableCount = False"
| "is_notification (Call_ReplaceInAllFiles files) = False"
| "is_notification Call_SearchableReplaceAll = False"
| "is_notification (Call_OpenResource r) = False"

definition notifications :: "'r Call list \<Rightarrow> 'r Call list" where
  "notifications cs = filter is_notification cs"

section \<open>Properties\<close>

subsection \<open>The files to search\<close>

lemma append_until_current_takeWhile:
  "current \<in> set xs \<Longrightarrow>
     append_until_current current xs = takeWhile (\<lambda>r. r \<noteq> current) xs @ [current]"
  by (induction xs) auto

lemma append_when_keep_True: "append_when_keep current True xs = xs"
  by (induction xs) auto

lemma append_when_keep_dropWhile:
  "append_when_keep current False xs = dropWhile (\<lambda>r. r \<noteq> current) xs"
  by (induction xs) (auto simp: append_when_keep_True)

lemma takeWhile_snoc_prefix:
  "current \<in> set xs \<Longrightarrow> prefix (takeWhile (\<lambda>r. r \<noteq> current) xs @ [current]) xs"
  by (induction xs) auto

lemma hd_dropWhile_current:
  "current \<in> set xs \<Longrightarrow> hd (dropWhile (\<lambda>r. r \<noteq> current) xs) = current"
  by (induction xs) auto

lemma suffix_dropWhile_self: "suffix (dropWhile P xs) xs"
  by (metis suffixI takeWhile_dropWhile_id)

lemma GetFilesToSearch_cases:
  "GetFilesToSearch c s = ScopedResources c s
   \<or> (GetCurrentResource c s \<in> set (ScopedResources c s)
       \<and> GetFilesToSearch c s =
           takeWhile (\<lambda>r. r \<noteq> GetCurrentResource c s) (ScopedResources c s)
             @ [GetCurrentResource c s])
   \<or> (GetCurrentResource c s \<in> set (ScopedResources c s)
       \<and> GetFilesToSearch c s =
           dropWhile (\<lambda>r. r \<noteq> GetCurrentResource c s) (ScopedResources c s))"
  by (simp add: GetFilesToSearch_def Let_def append_until_current_takeWhile
        append_when_keep_dropWhile)

lemma GetFilesToSearch_sublist:
  "prefix (GetFilesToSearch c s) (ScopedResources c s)
   \<or> suffix (GetFilesToSearch c s) (ScopedResources c s)"
  using GetFilesToSearch_cases [of c s] takeWhile_snoc_prefix suffix_dropWhile_self
  by (metis prefix_order.order_refl)

lemma distinct_map_prefix: "prefix xs ys \<Longrightarrow> distinct (map f ys) \<Longrightarrow> distinct (map f xs)"
  by (auto simp: prefix_def)

lemma distinct_map_suffix: "suffix xs ys \<Longrightarrow> distinct (map f ys) \<Longrightarrow> distinct (map f xs)"
  by (auto simp: suffix_def)

lemma GetFilesToSearch_distinct_paths:
  "distinct (map f (ScopedResources c s)) \<Longrightarrow> distinct (map f (GetFilesToSearch c s))"
  using GetFilesToSearch_sublist [of c s] distinct_map_prefix distinct_map_suffix by blast

lemma GetFilesToSearch_length: "length (GetFilesToSearch c s) \<le> length (ScopedResources c s)"
  using GetFilesToSearch_sublist [of c s] by (auto simp: prefix_def suffix_def)

lemma GetFilesToSearch_subset: "set (GetFilesToSearch c s) \<subseteq> set (ScopedResources c s)"
  using GetFilesToSearch_sublist [of c s] by (auto simp: prefix_def suffix_def)

lemma current_in_dropWhile:
  "current \<in> set xs \<Longrightarrow> current \<in> set (dropWhile (\<lambda>r. r \<noteq> current) xs)"
  by (induction xs) auto

lemma GetFilesToSearch_holds_current:
  "GetCurrentResource c s \<in> set (ScopedResources c s) \<Longrightarrow>
     GetCurrentResource c s \<in> set (GetFilesToSearch c s)"
  using GetFilesToSearch_cases [of c s] by (auto simp: current_in_dropWhile)

lemma any_with_path_iff: "any_with_path path p rs \<longleftrightarrow> p \<in> path ` set rs"
  by (induction rs) auto

lemma catalog_consistent_distinct:
  "catalog_consistent c s \<Longrightarrow> distinct (map (GetRelativePath c) (ScopedResources c s))"
  by (auto simp: catalog_consistent_def List.insert_def split: if_splits)

lemma catalog_consistent_same_path:
  "catalog_consistent c s \<Longrightarrow> r \<in> set (ScopedResources c s) \<Longrightarrow>
     GetRelativePath c r = GetRelativePath c (GetCurrentResource c s) \<Longrightarrow>
     r = GetCurrentResource c s"
  by (auto simp: catalog_consistent_def List.insert_def distinct_map inj_on_def split: if_splits)

lemma IsCurrentFileInSelection_iff:
  "catalog_consistent c s \<Longrightarrow>
     IsCurrentFileInSelection c s \<longleftrightarrow> GetCurrentResource c s \<in> set (GetFilesToSearch c s)"
  using GetFilesToSearch_subset [of c s] catalog_consistent_same_path [of c s]
  by (auto simp: IsCurrentFileInSelection_def Let_def any_with_path_iff)

lemma StartingResource_listed:
  assumes cc: "catalog_consistent c s" and ne: "GetFilesToSearch c s \<noteq> []"
  shows "\<exists>st. StartingResource c s d = Some st \<and> st \<in> set (GetFilesToSearch c s)"
proof (cases "IsCurrentFileInSelection c s")
  case True
  with cc have "GetCurrentResource c s \<in> set (GetFilesToSearch c s)"
    by (simp add: IsCurrentFileInSelection_iff)
  with ne show ?thesis
    by (auto simp: StartingResource_def Let_def)
next
  case False
  with cc have nin: "GetCurrentResource c s \<notin> set (GetFilesToSearch c s)"
    by (simp add: IsCurrentFileInSelection_iff)
  with GetFilesToSearch_holds_current [of c s]
  have nin': "GetCurrentResource c s \<notin> set (ScopedResources c s)" by blast
  show ?thesis
  proof (cases "isWhereSelected s")
    case True
    with False ne show ?thesis
      by (auto simp: StartingResource_def Let_def)
  next
    case ns: False
    have "\<not> (isWhereHTML s \<and> Type c (GetCurrentResource c s) = HTMLResourceType)"
      using cc nin' ns
      by (auto simp: catalog_consistent_def isWhereHTML_def isWhereSelected_def
            split: if_splits)
    moreover have "\<not> (isWhereCSS s \<and> Type c (GetCurrentResource c s) = CSSResourceType)"
      using cc nin' ns
      by (auto simp: catalog_consistent_def isWhereCSS_def isWhereSelected_def
            split: if_splits)
    moreover have "\<not> isWhereOPF s" "\<not> isWhereNCX s"
      using ns by (auto simp: isWhereOPF_def isWhereNCX_def isWhereSelected_def split: if_splits)
    ultimately show ?thesis using ne
      by (auto simp: StartingResource_def Let_def)
  qed
qed

text \<open>
  C3. With wrap enabled, or with a current resource that is not in the list of the
  scope, \<^verbatim>\<open>GetFilesToSearch\<close> returns the list of the scope unchanged. With wrap
  disabled and the current resource in the list, it returns, for the direction Up, the
  part of the list up to and including the (first occurrence of the) current resource,
  which is a prefix of the list ending with the current resource; for the direction
  Down, the part from the current resource on, which is a suffix of the list starting
  with the current resource.
\<close>

theorem GetFilesToSearch_resolved:
  "(m_OptionWrap s \<or> GetCurrentResource c s \<notin> set (ScopedResources c s) \<longrightarrow>
      GetFilesToSearch c s = ScopedResources c s)
   \<and> (\<not> m_OptionWrap s \<and> GetCurrentResource c s \<in> set (ScopedResources c s)
        \<and> GetSearchDirection s = SearchDirection_Up \<longrightarrow>
        GetFilesToSearch c s =
          takeWhile (\<lambda>r. r \<noteq> GetCurrentResource c s) (ScopedResources c s)
            @ [GetCurrentResource c s]
        \<and> prefix (GetFilesToSearch c s) (ScopedResources c s)
        \<and> last (GetFilesToSearch c s) = GetCurrentResource c s)
   \<and> (\<not> m_OptionWrap s \<and> GetCurrentResource c s \<in> set (ScopedResources c s)
        \<and> GetSearchDirection s = SearchDirection_Down \<longrightarrow>
        GetFilesToSearch c s =
          dropWhile (\<lambda>r. r \<noteq> GetCurrentResource c s) (ScopedResources c s)
        \<and> suffix (GetFilesToSearch c s) (ScopedResources c s)
        \<and> hd (GetFilesToSearch c s) = GetCurrentResource c s)"
  by (auto simp: GetFilesToSearch_def Let_def append_until_current_takeWhile
        append_when_keep_dropWhile takeWhile_snoc_prefix hd_dropWhile_current
        suffix_dropWhile_self)

theorem GetFilesToSearch_resolved_witness:
  "(m_OptionWrap (panel\<lparr>m_OptionWrap := True\<rparr>)
      \<and> GetFilesToSearch book (panel\<lparr>m_OptionWrap := True\<rparr>) = [1, 2, 3])
   \<and> (\<not> m_OptionWrap (panel\<lparr>cbSearchDirection := SearchDirection_Up, m_MainWindow := (2, False)\<rparr>)
      \<and> GetCurrentResource book
            (panel\<lparr>cbSearchDirection := SearchDirection_Up, m_MainWindow := (2, False)\<rparr>) = 2
      \<and> last (GetFilesToSearch book
                 (panel\<lparr>cbSearchDirection := SearchDirection_Up, m_MainWindow := (2, False)\<rparr>)) = 2)
   \<and> (\<not> m_OptionWrap (panel\<lparr>m_MainWindow := (2, False)\<rparr>)
      \<and> GetCurrentResource book (panel\<lparr>m_MainWindow := (2, False)\<rparr>) = 2
      \<and> hd (GetFilesToSearch book (panel\<lparr>m_MainWindow := (2, False)\<rparr>)) = 2)"
proof -
  let ?w = "panel\<lparr>m_OptionWrap := True\<rparr>"
  let ?u = "panel\<lparr>cbSearchDirection := SearchDirection_Up, m_MainWindow := (2, False)\<rparr>"
  let ?d = "panel\<lparr>m_MainWindow := (2, False)\<rparr>"
  have all: "ScopedResources book ?w = [1, 2, 3]"
    by code_simp
  have cur: "GetCurrentResource book ?u = 2" "GetCurrentResource book ?d = 2"
    by code_simp+
  have w: "m_OptionWrap ?w" by simp
  have u: "\<not> m_OptionWrap ?u \<and> GetCurrentResource book ?u \<in> set (ScopedResources book ?u)
             \<and> GetSearchDirection ?u = SearchDirection_Up"
    by code_simp
  have d: "\<not> m_OptionWrap ?d \<and> GetCurrentResource book ?d \<in> set (ScopedResources book ?d)
             \<and> GetSearchDirection ?d = SearchDirection_Down"
    by code_simp
  from GetFilesToSearch_resolved [of ?w book] w
  have "GetFilesToSearch book ?w = ScopedResources book ?w" by blast
  with all have 1: "GetFilesToSearch book ?w = [1, 2, 3]" by simp
  from GetFilesToSearch_resolved [of ?u book] u
  have "last (GetFilesToSearch book ?u) = GetCurrentResource book ?u" by blast
  with cur have 2: "last (GetFilesToSearch book ?u) = 2" by simp
  from GetFilesToSearch_resolved [of ?d book] d
  have "hd (GetFilesToSearch book ?d) = GetCurrentResource book ?d" by blast
  with cur have 3: "hd (GetFilesToSearch book ?d) = 2" by simp
  from w u d cur 1 2 3 show ?thesis by blast
qed

subsection \<open>The walk over the files\<close>

lemma steps_to_bounds: "si < n \<Longrightarrow> i < n \<Longrightarrow> 1 \<le> steps_to d n si i \<and> steps_to d n si i \<le> n"
  by (auto simp: steps_to_def)

lemma steps_to_self: "si < n \<Longrightarrow> steps_to d n si si = n"
  by (auto simp: steps_to_def)

lemma next_index_less: "i < n \<Longrightarrow> next_index d n i < n"
  by (auto simp: next_index_def)

lemma next_index_start_iff:
  "si < n \<Longrightarrow> i < n \<Longrightarrow> next_index d n i = si \<longleftrightarrow> steps_to d n si i = 1"
  by (auto simp: next_index_def steps_to_def)

lemma steps_to_next_index:
  "si < n \<Longrightarrow> i < n \<Longrightarrow> steps_to d n si i \<noteq> 1 \<Longrightarrow>
     steps_to d n si (next_index d n i) = steps_to d n si i - 1"
proof (cases "d = Direction_Up")
  case True
  assume "si < n" "i < n" "steps_to d n si i \<noteq> 1"
  with True show ?thesis
    by (auto simp add: next_index_def steps_to_def split: if_splits)
next
  case False
  assume "si < n" "i < n" "steps_to d n si i \<noteq> 1"
  with False show ?thesis
    by (auto simp add: next_index_def steps_to_def split: if_splits)
qed

lemma reading_order_of_nth:
  "distinct (map path rs) \<Longrightarrow> i < length rs \<Longrightarrow>
     reading_order_of path (path (rs ! i)) rs k = k + int i"
proof (induction rs arbitrary: i k)
  case Nil
  then show ?case by simp
next
  case (Cons r rest)
  show ?case
  proof (cases i)
    case 0
    then show ?thesis by simp
  next
    case (Suc j)
    with Cons.prems have j: "j < length rest" and d: "distinct (map path rest)"
      and nin: "path r \<notin> path ` set rest" by auto
    from j nin have "path r \<noteq> path (rest ! j)" by (metis imageI nth_mem)
    with Cons.IH [OF d j] Suc show ?thesis by simp
  qed
qed

lemma GetNextResource_nth:
  assumes "distinct (map (GetRelativePath c) (GetFilesToSearch c s))"
      and "i < length (GetFilesToSearch c s)"
  shows "GetNextResource c s (Some (GetFilesToSearch c s ! i)) d =
           Some (GetFilesToSearch c s ! next_index d (length (GetFilesToSearch c s)) i)"
proof -
  let ?rs = "GetFilesToSearch c s"
  have ro: "reading_order_of (GetRelativePath c) (GetRelativePath c (?rs ! i)) ?rs 0 = int i"
    using reading_order_of_nth [OF assms, of 0] by simp
  show ?thesis
  proof (cases "d = Direction_Up")
    case True
    then show ?thesis using assms(2) ro
      by (cases "1 \<le> i")
         (auto simp add: GetNextResource_def Let_def next_index_def nat_diff_distrib' int_ops)
  next
    case False
    then show ?thesis using assms(2) ro
      by (cases "i + 1 \<le> length ?rs - 1")
         (auto simp add: GetNextResource_def Let_def next_index_def nat_add_distrib)
  qed
qed

lemma containing_loop_passed:
  "containing_loop c s d st st True tested = Some (None, tested)"
  by (subst containing_loop.simps) simp

text \<open>
  From the resource at index \<open>i\<close>, \<open>k\<close> steps before the starting resource, the loop
  returns after at most \<open>k\<close> more tests, one less without wrap; with wrap, a search
  that finds nothing has tested the starting resource last.
\<close>

lemma containing_loop_returns:
  assumes dist: "distinct (map (GetRelativePath c) (GetFilesToSearch c s))"
      and si: "si < length (GetFilesToSearch c s)"
  shows "i < length (GetFilesToSearch c s) \<Longrightarrow>
         steps_to d (length (GetFilesToSearch c s)) si i = k \<Longrightarrow>
         \<exists>res more.
           containing_loop c s d (Some (GetFilesToSearch c s ! si))
             (Some (GetFilesToSearch c s ! i)) False tested = Some (res, tested @ more)
           \<and> length more \<le> (if m_OptionWrap s then k else k - 1)
           \<and> (m_OptionWrap s \<and> res = None \<longrightarrow>
                more \<noteq> [] \<and> last more = GetFilesToSearch c s ! si)
           \<and> set more \<subseteq> set (GetFilesToSearch c s)"
proof (induction k arbitrary: i tested)
  case 0
  with steps_to_bounds [OF si "0.prems"(1), of d] show ?case by simp
next
  case (Suc k)
  let ?rs = "GetFilesToSearch c s"
  let ?n = "length ?rs"
  let ?j = "next_index d ?n i"
  let ?st = "?rs ! si"
  have i: "i < ?n" by (rule Suc.prems(1))
  have j: "?j < ?n" by (rule next_index_less [OF i])
  have drs: "distinct ?rs" using dist by (simp add: distinct_map)
  have nxt: "GetNextResource c s (Some (?rs ! i)) d = Some (?rs ! ?j)"
    by (rule GetNextResource_nth [OF dist i])
  have mem: "?rs ! ?j \<in> set ?rs" using j by simp
  show ?case
  proof (cases "?j = si")
    case True
    show ?thesis
    proof (cases "m_OptionWrap s")
      case False
      have "containing_loop c s d (Some ?st) (Some (?rs ! i)) False tested = Some (None, tested)"
        by (subst containing_loop.simps) (simp add: nxt True False)
      with False show ?thesis by simp
    next
      case wrap: True
      show ?thesis
      proof (cases "ResourceContainsCurrentRegex c s ?st")
        case True
        have "containing_loop c s d (Some ?st) (Some (?rs ! i)) False tested
                = Some (Some ?st, tested @ [?st])"
          by (subst containing_loop.simps) (simp add: nxt \<open>?j = si\<close> wrap True)
        with wrap si show ?thesis by simp
      next
        case False
        have "containing_loop c s d (Some ?st) (Some (?rs ! i)) False tested
                = Some (None, tested @ [?st])"
          by (subst containing_loop.simps)
             (simp add: nxt \<open>?j = si\<close> wrap False containing_loop_passed)
        with wrap si show ?thesis by simp
      qed
    qed
  next
    case False
    with next_index_start_iff [OF si i, of d] Suc.prems(2)
    have k1: "steps_to d ?n si i \<noteq> 1" by simp
    from steps_to_next_index [OF si i k1] Suc.prems(2)
    have stj: "steps_to d ?n si ?j = k" by simp
    with steps_to_bounds [OF si j, of d] have kpos: "1 \<le> k" by simp
    have ne: "?rs ! ?j \<noteq> ?st"
      using False drs j si by (simp add: nth_eq_iff_index_eq)
    show ?thesis
    proof (cases "ResourceContainsCurrentRegex c s (?rs ! ?j)")
      case True
      have "containing_loop c s d (Some ?st) (Some (?rs ! i)) False tested
              = Some (Some (?rs ! ?j), tested @ [?rs ! ?j])"
        by (subst containing_loop.simps) (simp add: nxt ne True)
      with kpos mem show ?thesis by simp
    next
      case nc: False
      from Suc.IH [OF j stj, of "tested @ [?rs ! ?j]"]
      obtain res more where
        L: "containing_loop c s d (Some ?st) (Some (?rs ! ?j)) False (tested @ [?rs ! ?j])
              = Some (res, (tested @ [?rs ! ?j]) @ more)"
        and B: "length more \<le> (if m_OptionWrap s then k else k - 1)"
        and W: "m_OptionWrap s \<and> res = None \<longrightarrow> more \<noteq> [] \<and> last more = ?st"
        and S: "set more \<subseteq> set ?rs"
        by blast
      have "containing_loop c s d (Some ?st) (Some (?rs ! i)) False tested
              = Some (res, tested @ (?rs ! ?j # more))"
        by (subst containing_loop.simps) (simp add: nxt ne nc L)
      moreover have "length (?rs ! ?j # more) \<le> (if m_OptionWrap s then Suc k else Suc k - 1)"
        using B kpos by (simp split: if_splits)
      moreover have "m_OptionWrap s \<and> res = None \<longrightarrow>
                       ?rs ! ?j # more \<noteq> [] \<and> last (?rs ! ?j # more) = ?st"
        using W by simp
      moreover have "set (?rs ! ?j # more) \<subseteq> set ?rs" using S mem by simp
      ultimately show ?thesis by blast
    qed
  qed
qed

text \<open>
  C1. Let the resources of the scope and the current resource have pairwise different
  relative paths, and let the list of all HTML (CSS) files hold the current resource
  when that is an HTML (CSS) file. Then \<^verbatim>\<open>GetNextContainingResource\<close> returns, for
  every direction, a resource or nothing. With \<open>N\<close> the number of files to search, it
  has called \<^verbatim>\<open>ResourceContainsCurrentRegex\<close> at most \<open>N\<close> times, on files of the
  list; so at most \<open>N\<close> times without wrap and at most \<open>N + 1\<close> times with wrap. With
  wrap, a walk that returns nothing has tested the starting resource, as its last
  test, after the round over the other files. The files to search are never more than
  the resources of the scope.
\<close>

theorem GetNextContainingResource_terminates:
  assumes cc: "catalog_consistent c s"
  shows "\<exists>res tested.
           GetNextContainingResource c s d = Some (res, tested)
           \<and> length tested \<le> length (GetFilesToSearch c s)
           \<and> (m_OptionWrap s \<longrightarrow> length tested \<le> length (GetFilesToSearch c s) + 1)
           \<and> (m_OptionWrap s \<and> res = None \<and> GetFilesToSearch c s \<noteq> [] \<longrightarrow>
                tested \<noteq> [] \<and> Some (last tested) = StartingResource c s d)
           \<and> set tested \<subseteq> set (GetFilesToSearch c s)
           \<and> length (GetFilesToSearch c s) \<le> length (ScopedResources c s)"
proof (cases "GetFilesToSearch c s = []")
  case True
  then show ?thesis by (simp add: GetNextContainingResource_def)
next
  case ne: False
  let ?rs = "GetFilesToSearch c s"
  from StartingResource_listed [OF cc ne, of d]
  obtain st where st: "StartingResource c s d = Some st" and mem: "st \<in> set ?rs" by blast
  then obtain si where si: "si < length ?rs" and nth: "?rs ! si = st"
    by (auto simp: in_set_conv_nth)
  have dist: "distinct (map (GetRelativePath c) ?rs)"
    by (rule GetFilesToSearch_distinct_paths [OF catalog_consistent_distinct [OF cc]])
  show ?thesis
  proof (cases "length ?rs = 1 \<and> \<not> m_OptionWrap s")
    case True
    with ne st mem GetFilesToSearch_length [of c s] show ?thesis
      by (auto simp: GetNextContainingResource_def Let_def)
  next
    case False
    from containing_loop_returns [OF dist si si steps_to_self [OF si], of d "[]"] nth
    obtain res more where
      L: "containing_loop c s d (Some st) (Some st) False [] = Some (res, more)"
      and B: "length more \<le> (if m_OptionWrap s then length ?rs else length ?rs - 1)"
      and W: "m_OptionWrap s \<and> res = None \<longrightarrow> more \<noteq> [] \<and> last more = st"
      and S: "set more \<subseteq> set ?rs"
      by auto
    have "GetNextContainingResource c s d = Some (res, more)"
      using ne False st L by (auto simp: GetNextContainingResource_def Let_def)
    moreover have "length more \<le> length ?rs" using B by (simp split: if_splits)
    ultimately show ?thesis using W S st GetFilesToSearch_length [of c s] by auto
  qed
qed

theorem GetNextContainingResource_terminates_witness:
  "catalog_consistent book
     (panel\<lparr>cbLookWhere := LookWhere_AllCSSFiles, m_OptionWrap := True,
            m_MainWindow := (10, False)\<rparr>)
   \<and> m_OptionWrap
       (panel\<lparr>cbLookWhere := LookWhere_AllCSSFiles, m_OptionWrap := True,
              m_MainWindow := (10, False)\<rparr>)
   \<and> GetFilesToSearch book
       (panel\<lparr>cbLookWhere := LookWhere_AllCSSFiles, m_OptionWrap := True,
              m_MainWindow := (10, False)\<rparr>) = [10, 11]
   \<and> (\<exists>tested.
         GetNextContainingResource book
           (panel\<lparr>cbLookWhere := LookWhere_AllCSSFiles, m_OptionWrap := True,
                  m_MainWindow := (10, False)\<rparr>) Direction_Down = Some (None, tested)
         \<and> length tested \<le> 2 \<and> last tested = 10)"
proof -
  let ?s = "panel\<lparr>cbLookWhere := LookWhere_AllCSSFiles, m_OptionWrap := True,
                   m_MainWindow := (10, False)\<rparr>"
  have h: "catalog_consistent book ?s" by code_simp
  have w: "m_OptionWrap ?s" by simp
  have f: "GetFilesToSearch book ?s = [10, 11]" by code_simp
  have st: "StartingResource book ?s Direction_Down = Some 10" by code_simp
  have exhausted: "map_option fst (GetNextContainingResource book ?s Direction_Down) = Some None"
    by code_simp
  from GetNextContainingResource_terminates [OF h, of Direction_Down]
  obtain res tested where
    r: "GetNextContainingResource book ?s Direction_Down = Some (res, tested)"
    and b: "length tested \<le> length (GetFilesToSearch book ?s)"
    and l: "m_OptionWrap ?s \<and> res = None \<and> GetFilesToSearch book ?s \<noteq> [] \<longrightarrow>
              tested \<noteq> [] \<and> Some (last tested) = StartingResource book ?s Direction_Down"
    by blast
  from r exhausted have none: "res = None" by simp
  with l w f st have "last tested = 10" by simp
  moreover from b f have "length tested \<le> 2" by simp
  ultimately have "\<exists>tested.
      GetNextContainingResource book ?s Direction_Down = Some (None, tested)
      \<and> length tested \<le> 2 \<and> last tested = 10"
    using r none by blast
  with h w f show ?thesis by blast
qed

text \<open>
  C2. Under the same conditions on the scope, let wrap be disabled and the files to
  search be the single resource \<open>e\<close>. Then \<^verbatim>\<open>GetNextContainingResource\<close> returns \<open>e\<close>
  if \<open>e\<close> contains a match and is not the current resource, and nothing otherwise;
  when \<open>e\<close> is the current resource it returns nothing without testing it.
\<close>

theorem GetNextContainingResource_single:
  assumes cc: "catalog_consistent c s"
      and one: "GetFilesToSearch c s = [e]"
      and nowrap: "\<not> m_OptionWrap s"
  shows "map_option fst (GetNextContainingResource c s d) =
           Some (if ResourceContainsCurrentRegex c s e \<and> e \<noteq> GetCurrentResource c s
                 then Some e else None)
         \<and> (e = GetCurrentResource c s \<longrightarrow>
              GetNextContainingResource c s d = Some (None, []))"
proof (cases "e = GetCurrentResource c s")
  case True
  with cc one have "IsCurrentFileInSelection c s" by (simp add: IsCurrentFileInSelection_iff)
  with one nowrap True show ?thesis by (simp add: GetNextContainingResource_def Let_def)
next
  case False
  with cc one have nsel: "\<not> IsCurrentFileInSelection c s"
    by (simp add: IsCurrentFileInSelection_iff)
  from StartingResource_listed [OF cc, of d] one
  have st: "StartingResource c s d = Some e" by auto
  from one nowrap nsel st False show ?thesis
    by (simp add: GetNextContainingResource_def Let_def)
qed

theorem GetNextContainingResource_single_witness:
  "catalog_consistent book (panel\<lparr>cbLookWhere := LookWhere_TabbedHTMLFiles\<rparr>)
   \<and> GetFilesToSearch book (panel\<lparr>cbLookWhere := LookWhere_TabbedHTMLFiles\<rparr>) = [3]
   \<and> \<not> m_OptionWrap (panel\<lparr>cbLookWhere := LookWhere_TabbedHTMLFiles\<rparr>)
   \<and> map_option fst
        (GetNextContainingResource book (panel\<lparr>cbLookWhere := LookWhere_TabbedHTMLFiles\<rparr>)
           Direction_Down) = Some (Some 3)
   \<and> catalog_consistent book (panel\<lparr>m_MainWindow := (3, False)\<rparr>)
   \<and> GetFilesToSearch book (panel\<lparr>m_MainWindow := (3, False)\<rparr>) = [3]
   \<and> \<not> m_OptionWrap (panel\<lparr>m_MainWindow := (3, False)\<rparr>)
   \<and> GetCurrentResource book (panel\<lparr>m_MainWindow := (3, False)\<rparr>) = 3
   \<and> GetNextContainingResource book (panel\<lparr>m_MainWindow := (3, False)\<rparr>) Direction_Down
       = Some (None, [])"
proof -
  let ?s = "panel\<lparr>cbLookWhere := LookWhere_TabbedHTMLFiles\<rparr>"
  let ?t = "panel\<lparr>m_MainWindow := (3, False)\<rparr>"
  have h: "catalog_consistent book ?s" by code_simp
  have one: "GetFilesToSearch book ?s = [3]" by code_simp
  have nowrap: "\<not> m_OptionWrap ?s" by code_simp
  have m: "ResourceContainsCurrentRegex book ?s 3 \<and> 3 \<noteq> GetCurrentResource book ?s"
    by code_simp
  from GetNextContainingResource_single [OF h one nowrap, of Direction_Down] m
  have 1: "map_option fst (GetNextContainingResource book ?s Direction_Down) = Some (Some 3)"
    by simp
  have h': "catalog_consistent book ?t" by code_simp
  have one': "GetFilesToSearch book ?t = [3]" by code_simp
  have nowrap': "\<not> m_OptionWrap ?t" by code_simp
  have cur: "GetCurrentResource book ?t = 3" by code_simp
  from GetNextContainingResource_single [OF h' one' nowrap', of Direction_Down] cur
  have 2: "GetNextContainingResource book ?t Direction_Down = Some (None, [])"
    by simp
  from h one nowrap 1 h' one' nowrap' cur 2 show ?thesis by blast
qed

subsection \<open>The search regex\<close>

lemma PrependRegexOptionToSearch_UCP:
  "PrependRegexOptionToSearch option (REGEX_OPTION_UCP @ rest) = REGEX_OPTION_UCP @ option @ rest"
  by (simp add: PrependRegexOptionToSearch_def)

lemma PrependRegexOptionToSearch_prefix:
  "prefix REGEX_OPTION_UCP search \<Longrightarrow>
     prefix REGEX_OPTION_UCP (PrependRegexOptionToSearch option search)"
  by (simp add: PrependRegexOptionToSearch_def)

lemma PrependRegexOptionToSearch_length:
  "length (PrependRegexOptionToSearch option search) = length option + length search"
  by (auto simp: PrependRegexOptionToSearch_def prefix_def)

lemma foldl_PrependRegexOptionToSearch_UCP:
  "foldl (\<lambda>search option. PrependRegexOptionToSearch option search)
     (REGEX_OPTION_UCP @ rest) options
   = REGEX_OPTION_UCP @ concat (rev options) @ rest"
  by (induction options arbitrary: rest) (simp_all add: PrependRegexOptionToSearch_UCP)

text \<open>
  C4. When the search text begins with \<^verbatim>\<open>(*UCP)\<close>, \<^verbatim>\<open>PrependRegexOptionToSearch\<close>
  puts the option right after \<^verbatim>\<open>(*UCP)\<close> and the rest of the text after the option;
  the result begins with \<^verbatim>\<open>(*UCP)\<close> again, so that after any sequence of options
  \<^verbatim>\<open>(*UCP)\<close> is still in front, followed by the options, the last one first. When the
  search text does not begin with \<^verbatim>\<open>(*UCP)\<close> the option is put in front.
\<close>

theorem PrependRegexOptionToSearch_UCP_first:
  "PrependRegexOptionToSearch option (REGEX_OPTION_UCP @ rest)
     = REGEX_OPTION_UCP @ option @ rest
   \<and> foldl (\<lambda>search option. PrependRegexOptionToSearch option search)
        (REGEX_OPTION_UCP @ rest) options
      = REGEX_OPTION_UCP @ concat (rev options) @ rest
   \<and> (prefix REGEX_OPTION_UCP search \<longrightarrow>
        prefix REGEX_OPTION_UCP (PrependRegexOptionToSearch option search)
        \<and> PrependRegexOptionToSearch option search
            = REGEX_OPTION_UCP @ option @ drop (length REGEX_OPTION_UCP) search)
   \<and> (\<not> prefix REGEX_OPTION_UCP search \<longrightarrow>
        PrependRegexOptionToSearch option search = option @ search)"
proof -
  have "\<not> prefix REGEX_OPTION_UCP search \<longrightarrow>
      PrependRegexOptionToSearch option search = option @ search"
    by (simp add: PrependRegexOptionToSearch_def)
  moreover have "prefix REGEX_OPTION_UCP search \<longrightarrow>
      PrependRegexOptionToSearch option search
        = REGEX_OPTION_UCP @ option @ drop (length REGEX_OPTION_UCP) search"
    by (simp add: PrependRegexOptionToSearch_def)
  ultimately show ?thesis
    using PrependRegexOptionToSearch_UCP [of option rest]
      foldl_PrependRegexOptionToSearch_UCP [of rest options]
      PrependRegexOptionToSearch_prefix [of search option]
    by blast
qed

theorem PrependRegexOptionToSearch_UCP_first_witness:
  "prefix REGEX_OPTION_UCP ''(*UCP)a.b''
   \<and> prefix REGEX_OPTION_UCP (PrependRegexOptionToSearch ''(?s)'' ''(*UCP)a.b'')
   \<and> foldl (\<lambda>search option. PrependRegexOptionToSearch option search) ''(*UCP)a.b''
        [''(?s)'', ''(?U)''] = ''(*UCP)(?U)(?s)a.b''
   \<and> \<not> prefix REGEX_OPTION_UCP ''a.b''
   \<and> PrependRegexOptionToSearch ''(?s)'' ''a.b'' = ''(?s)a.b''"
proof -
  have p: "prefix REGEX_OPTION_UCP ''(*UCP)a.b''" by code_simp
  have np: "\<not> prefix REGEX_OPTION_UCP ''a.b''" by code_simp
  have u: "REGEX_OPTION_UCP @ ''a.b'' = ''(*UCP)a.b''" by code_simp
  have v: "REGEX_OPTION_UCP @ concat (rev [''(?s)'', ''(?U)'']) @ ''a.b'' = ''(*UCP)(?U)(?s)a.b''"
    by code_simp
  from PrependRegexOptionToSearch_UCP_first
         [of "''(?s)''" "''a.b''" "[''(?s)'', ''(?U)'']" "''(*UCP)a.b''"] p
  have 1: "prefix REGEX_OPTION_UCP (PrependRegexOptionToSearch ''(?s)'' ''(*UCP)a.b'')"
    and f: "foldl (\<lambda>search option. PrependRegexOptionToSearch option search)
              (REGEX_OPTION_UCP @ ''a.b'') [''(?s)'', ''(?U)'']
            = REGEX_OPTION_UCP @ concat (rev [''(?s)'', ''(?U)'']) @ ''a.b''"
    by blast+
  from f have 2: "foldl (\<lambda>search option. PrependRegexOptionToSearch option search)
      ''(*UCP)a.b'' [''(?s)'', ''(?U)''] = ''(*UCP)(?U)(?s)a.b''"
    unfolding u v .
  from PrependRegexOptionToSearch_UCP_first [of "''(?s)''" "[]" "[]" "''a.b''"] np
  have "PrependRegexOptionToSearch ''(?s)'' ''a.b'' = ''(?s)'' @ ''a.b''"
    by blast
  then have 3: "PrependRegexOptionToSearch ''(?s)'' ''a.b'' = ''(?s)a.b''" by simp
  from p np 1 2 3 show ?thesis by blast
qed

subsection \<open>The control string\<close>

lemma two_lettersE:
  assumes "two_letters tok"
  obtains p q where "tok = [p, q]" "p \<noteq> CHR '' ''" "q \<noteq> CHR '' ''"
proof -
  from assms obtain p q where "tok = [p, q]"
    by (auto simp: two_letters_def length_Suc_conv numeral_2_eq_2)
  with assms that show thesis by (auto simp: two_letters_def)
qed

text \<open>
  A string joined from two-letter tokens contains a two-letter token exactly when the
  token is one of those joined: a substring of two characters that is not one of them
  has a space in it.
\<close>

lemma contains_str_join_space:
  "two_letters tok \<Longrightarrow> \<forall>t \<in> set ts. two_letters t \<Longrightarrow>
     contains_str (join_space ts) tok \<longleftrightarrow> tok \<in> set ts"
proof (induction ts rule: join_space.induct)
  case 1
  then show ?case by (auto elim: two_lettersE)
next
  case (2 x)
  from 2(1) obtain p q where tok: "tok = [p, q]" by (auto elim: two_lettersE)
  from 2(2) obtain a b where x: "x = [a, b]" by (auto elim: two_lettersE)
  show ?case by (auto simp: tok x)
next
  case (3 x y ys)
  from 3(2) obtain p q where tok: "tok = [p, q]" "p \<noteq> CHR '' ''" "q \<noteq> CHR '' ''"
    by (auto elim: two_lettersE)
  from 3(3) obtain a b where x: "x = [a, b]" by (auto elim: two_lettersE)
  from 3 have IH: "contains_str (join_space (y # ys)) tok \<longleftrightarrow> tok \<in> set (y # ys)" by simp
  show ?case using IH tok by (auto simp: x)
qed

lemma control_tokens_two_letters: "\<forall>t \<in> set (control_tokens s). two_letters t"
  by (auto simp: control_tokens_def two_letters_def MDS_at_def DRS_at_def TGTS_at_def
        split: SearchMode.splits SearchDirection.splits LookWhere.splits)

lemma contains_str_GetControls:
  "two_letters tok \<Longrightarrow> contains_str (GetControls s) tok \<longleftrightarrow> tok \<in> set (control_tokens s)"
  using contains_str_join_space [OF _ control_tokens_two_letters, of tok s]
  by (simp add: GetControls_def control_tokens_def)

lemma GetControls_not_empty: "GetControls s \<noteq> []"
  by (cases "GetSearchMode s")
     (auto simp: GetControls_def MDS_at_def DRS_at_def TGTS_at_def
        split: SearchDirection.splits)

lemma mode_tokens:
  "''NL'' \<in> set (control_tokens s) \<longleftrightarrow> GetSearchMode s = SearchMode_Normal"
  "''RX'' \<in> set (control_tokens s) \<longleftrightarrow> GetSearchMode s = SearchMode_Regex"
  "''CS'' \<in> set (control_tokens s) \<longleftrightarrow> GetSearchMode s = SearchMode_Case_Sensitive"
  by (auto simp: control_tokens_def MDS_at_def DRS_at_def TGTS_at_def
        split: SearchMode.splits SearchDirection.splits LookWhere.splits)

lemma direction_tokens:
  "''UP'' \<in> set (control_tokens s) \<longleftrightarrow> GetSearchDirection s = SearchDirection_Up"
  "''DN'' \<in> set (control_tokens s) \<longleftrightarrow> GetSearchDirection s = SearchDirection_Down"
  by (auto simp: control_tokens_def MDS_at_def DRS_at_def TGTS_at_def
        split: SearchMode.splits SearchDirection.splits LookWhere.splits)

lemma flag_tokens:
  "''WR'' \<in> set (control_tokens s) \<longleftrightarrow> m_OptionWrap s"
  "''DA'' \<in> set (control_tokens s) \<longleftrightarrow> m_RegexOptionDotAll s"
  "''MM'' \<in> set (control_tokens s) \<longleftrightarrow> m_RegexOptionMinimalMatch s"
  "''AT'' \<in> set (control_tokens s) \<longleftrightarrow> m_RegexOptionAutoTokenise s"
  by (auto simp: control_tokens_def MDS_at_def DRS_at_def TGTS_at_def
        split: SearchMode.splits SearchDirection.splits LookWhere.splits)

lemma scope_tokens:
  "''CF'' \<in> set (control_tokens s) \<longleftrightarrow> GetLookWhere s = LookWhere_CurrentFile"
  "''AH'' \<in> set (control_tokens s) \<longleftrightarrow> GetLookWhere s = LookWhere_AllHTMLFiles"
  "''SH'' \<in> set (control_tokens s) \<longleftrightarrow> GetLookWhere s = LookWhere_SelectedHTMLFiles"
  "''TH'' \<in> set (control_tokens s) \<longleftrightarrow> GetLookWhere s = LookWhere_TabbedHTMLFiles"
  "''AC'' \<in> set (control_tokens s) \<longleftrightarrow> GetLookWhere s = LookWhere_AllCSSFiles"
  "''SC'' \<in> set (control_tokens s) \<longleftrightarrow> GetLookWhere s = LookWhere_SelectedCSSFiles"
  "''TC'' \<in> set (control_tokens s) \<longleftrightarrow> GetLookWhere s = LookWhere_TabbedCSSFiles"
  "''OP'' \<in> set (control_tokens s) \<longleftrightarrow> GetLookWhere s = LookWhere_OPFFile"
  "''NX'' \<in> set (control_tokens s) \<longleftrightarrow> GetLookWhere s = LookWhere_NCXFile"
  by (auto simp: control_tokens_def MDS_at_def DRS_at_def TGTS_at_def
        split: SearchMode.splits SearchDirection.splits LookWhere.splits)

lemmas token_membership = mode_tokens direction_tokens flag_tokens scope_tokens

lemmas control_accessors =
  GetSearchMode_def GetLookWhere_def GetSearchDirection_def SetSearchMode_def SetLookWhere_def
  SetSearchDirection_def SetOptionWrap_def SetRegexOptionDotAll_def
  SetRegexOptionMinimalMatch_def SetRegexOptionAutoTokenise_def

text \<open>
  C6. For every mode, scope, direction and combination of the four flags: the string
  that \<^verbatim>\<open>GetControls\<close> builds from a state \<open>s\<close>, given to \<^verbatim>\<open>UpdateSearchControls\<close>
  in any state \<open>t\<close>, leaves the mode, the scope, the direction and the four flags of
  \<open>s\<close>; a flag whose token is absent is cleared. The tokens are looked for as
  substrings.
\<close>

theorem UpdateSearchControls_GetControls:
  fixes s :: "('r, 'h) FindReplace" and t :: "('r, 'h) FindReplace"
  shows "GetSearchMode (UpdateSearchControls (GetControls s) t) = GetSearchMode s
       \<and> GetLookWhere (UpdateSearchControls (GetControls s) t) = GetLookWhere s
       \<and> GetSearchDirection (UpdateSearchControls (GetControls s) t) = GetSearchDirection s
       \<and> m_OptionWrap (UpdateSearchControls (GetControls s) t) = m_OptionWrap s
       \<and> m_RegexOptionDotAll (UpdateSearchControls (GetControls s) t) = m_RegexOptionDotAll s
       \<and> m_RegexOptionMinimalMatch (UpdateSearchControls (GetControls s) t)
           = m_RegexOptionMinimalMatch s
       \<and> m_RegexOptionAutoTokenise (UpdateSearchControls (GetControls s) t)
           = m_RegexOptionAutoTokenise s"
proof -
  have tl: "two_letters tok \<Longrightarrow>
              contains_str (GetControls s) tok \<longleftrightarrow> tok \<in> set (control_tokens s)" for tok
    by (rule contains_str_GetControls)
  have c: "contains_str (GetControls s) ''NL'' \<longleftrightarrow> GetSearchMode s = SearchMode_Normal"
    "contains_str (GetControls s) ''RX'' \<longleftrightarrow> GetSearchMode s = SearchMode_Regex"
    "contains_str (GetControls s) ''CS'' \<longleftrightarrow> GetSearchMode s = SearchMode_Case_Sensitive"
    "contains_str (GetControls s) ''UP'' \<longleftrightarrow> GetSearchDirection s = SearchDirection_Up"
    "contains_str (GetControls s) ''DN'' \<longleftrightarrow> GetSearchDirection s = SearchDirection_Down"
    "contains_str (GetControls s) ''WR'' \<longleftrightarrow> m_OptionWrap s"
    "contains_str (GetControls s) ''DA'' \<longleftrightarrow> m_RegexOptionDotAll s"
    "contains_str (GetControls s) ''MM'' \<longleftrightarrow> m_RegexOptionMinimalMatch s"
    "contains_str (GetControls s) ''AT'' \<longleftrightarrow> m_RegexOptionAutoTokenise s"
    "contains_str (GetControls s) ''CF'' \<longleftrightarrow> GetLookWhere s = LookWhere_CurrentFile"
    "contains_str (GetControls s) ''AH'' \<longleftrightarrow> GetLookWhere s = LookWhere_AllHTMLFiles"
    "contains_str (GetControls s) ''SH'' \<longleftrightarrow> GetLookWhere s = LookWhere_SelectedHTMLFiles"
    "contains_str (GetControls s) ''TH'' \<longleftrightarrow> GetLookWhere s = LookWhere_TabbedHTMLFiles"
    "contains_str (GetControls s) ''AC'' \<longleftrightarrow> GetLookWhere s = LookWhere_AllCSSFiles"
    "contains_str (GetControls s) ''SC'' \<longleftrightarrow> GetLookWhere s = LookWhere_SelectedCSSFiles"
    "contains_str (GetControls s) ''TC'' \<longleftrightarrow> GetLookWhere s = LookWhere_TabbedCSSFiles"
    "contains_str (GetControls s) ''OP'' \<longleftrightarrow> GetLookWhere s = LookWhere_OPFFile"
    "contains_str (GetControls s) ''NX'' \<longleftrightarrow> GetLookWhere s = LookWhere_NCXFile"
    by (simp_all add: tl two_letters_def token_membership)
  have m: "GetSearchMode (UpdateSearchControls (GetControls s) t) = GetSearchMode s"
    unfolding UpdateSearchControls_def Let_def c
    by (cases "GetSearchMode s") (simp_all add: GetControls_not_empty control_accessors)
  have w: "GetLookWhere (UpdateSearchControls (GetControls s) t) = GetLookWhere s"
    unfolding UpdateSearchControls_def Let_def c
    by (cases "GetLookWhere s") (simp_all add: GetControls_not_empty control_accessors)
  have d: "GetSearchDirection (UpdateSearchControls (GetControls s) t) = GetSearchDirection s"
    unfolding UpdateSearchControls_def Let_def c
    by (cases "GetSearchDirection s") (simp_all add: GetControls_not_empty control_accessors)
  have f: "m_OptionWrap (UpdateSearchControls (GetControls s) t) = m_OptionWrap s"
    "m_RegexOptionDotAll (UpdateSearchControls (GetControls s) t) = m_RegexOptionDotAll s"
    "m_RegexOptionMinimalMatch (UpdateSearchControls (GetControls s) t)
       = m_RegexOptionMinimalMatch s"
    "m_RegexOptionAutoTokenise (UpdateSearchControls (GetControls s) t)
       = m_RegexOptionAutoTokenise s"
    unfolding UpdateSearchControls_def Let_def c
    by (simp_all add: GetControls_not_empty control_accessors)
  from m w d f show ?thesis by simp
qed

theorem UpdateSearchControls_GetControls_witness:
  "GetControls (panel\<lparr>cbSearchMode := SearchMode_Regex, cbLookWhere := LookWhere_TabbedCSSFiles,
                      cbSearchDirection := SearchDirection_Up, m_RegexOptionDotAll := True,
                      m_OptionWrap := True\<rparr>) = ''RX DA WR UP TC''
   \<and> GetSearchMode (UpdateSearchControls ''RX DA WR UP TC'' panel) = SearchMode_Regex
   \<and> GetLookWhere (UpdateSearchControls ''RX DA WR UP TC'' panel) = LookWhere_TabbedCSSFiles
   \<and> GetSearchDirection (UpdateSearchControls ''RX DA WR UP TC'' panel) = SearchDirection_Up
   \<and> m_OptionWrap (UpdateSearchControls ''RX DA WR UP TC'' panel)
   \<and> m_RegexOptionDotAll (UpdateSearchControls ''RX DA WR UP TC'' panel)
   \<and> \<not> m_RegexOptionMinimalMatch (UpdateSearchControls ''RX DA WR UP TC'' panel)
   \<and> \<not> m_RegexOptionAutoTokenise (UpdateSearchControls ''RX DA WR UP TC'' panel)"
proof -
  let ?s = "panel\<lparr>cbSearchMode := SearchMode_Regex, cbLookWhere := LookWhere_TabbedCSSFiles,
                   cbSearchDirection := SearchDirection_Up, m_RegexOptionDotAll := True,
                   m_OptionWrap := True\<rparr>"
  have g: "GetControls ?s = ''RX DA WR UP TC''" by code_simp
  have v: "GetSearchMode ?s = SearchMode_Regex" "GetLookWhere ?s = LookWhere_TabbedCSSFiles"
    "GetSearchDirection ?s = SearchDirection_Up" "m_OptionWrap ?s" "m_RegexOptionDotAll ?s"
    "\<not> m_RegexOptionMinimalMatch ?s" "\<not> m_RegexOptionAutoTokenise ?s"
    by code_simp+
  from UpdateSearchControls_GetControls [of ?s panel] show ?thesis
    unfolding g using g v by simp
qed

subsection \<open>The composition of the search regex\<close>

text \<open>
  C5. Spell-check mode, which is set only while \<^verbatim>\<open>FindMisspelledWord\<close> runs and in
  which \<^verbatim>\<open>GetSearchRegex\<close> returns the null string, is no part of the text search.
  Outside it the find text first has its newline sequences replaced by a newline. In
  the modes Normal and Case Sensitive the text is then escaped, and in the mode Normal
  alone the option \<^verbatim>\<open>(?i)\<close> is prepended to the escaped text. In the mode Regex the
  text is not escaped; \<^verbatim>\<open>(?s)\<close> is prepended exactly when the dot-all flag is set and
  then \<^verbatim>\<open>(?U)\<close> exactly when the minimal-match flag is set, so that the regex is
  longer than the text by four characters for each flag set. Nothing else is added:
  the modes Case Sensitive and Regex never get \<^verbatim>\<open>(?i)\<close>.
\<close>

theorem GetSearchRegex_composed:
  "(m_SpellCheck s \<longrightarrow> GetSearchRegex c s = [])
   \<and> (\<not> m_SpellCheck s \<and> GetSearchMode s = SearchMode_Normal \<longrightarrow>
        GetSearchRegex c s =
          PrependRegexOptionToSearch REGEX_OPTION_IGNORE_CASE
            (escape c (replace_R_by_newline c (cbFind s))))
   \<and> (\<not> m_SpellCheck s \<and> GetSearchMode s = SearchMode_Case_Sensitive \<longrightarrow>
        GetSearchRegex c s = escape c (replace_R_by_newline c (cbFind s)))
   \<and> (\<not> m_SpellCheck s \<and> GetSearchMode s = SearchMode_Regex \<longrightarrow>
        GetSearchRegex c s =
          (if m_RegexOptionMinimalMatch s
           then PrependRegexOptionToSearch REGEX_OPTION_MINIMAL_MATCH else id)
            ((if m_RegexOptionDotAll s
              then PrependRegexOptionToSearch REGEX_OPTION_DOT_ALL else id)
               (replace_R_by_newline c (cbFind s)))
        \<and> length (GetSearchRegex c s) =
            length (replace_R_by_newline c (cbFind s))
              + (if m_RegexOptionDotAll s then 4 else 0)
              + (if m_RegexOptionMinimalMatch s then 4 else 0))"
  by (cases "GetSearchMode s")
     (simp_all add: GetSearchRegex_def Let_def PrependRegexOptionToSearch_length
        REGEX_OPTION_DOT_ALL_def REGEX_OPTION_MINIMAL_MATCH_def)

theorem GetSearchRegex_composed_witness:
  "\<not> m_SpellCheck panel \<and> GetSearchMode panel = SearchMode_Normal
   \<and> GetSearchRegex book panel = ''(?i)cat''
   \<and> GetSearchMode (panel\<lparr>cbFind := ''a.b'', cbSearchMode := SearchMode_Case_Sensitive\<rparr>)
       = SearchMode_Case_Sensitive
   \<and> GetSearchRegex book
       (panel\<lparr>cbFind := ''a.b'', cbSearchMode := SearchMode_Case_Sensitive\<rparr>)
       = [CHR ''a'', CHR 0x5C, CHR ''.'', CHR ''b'']
   \<and> GetSearchMode (panel\<lparr>cbFind := ''a.b'', cbSearchMode := SearchMode_Regex,
                             m_RegexOptionDotAll := True\<rparr>) = SearchMode_Regex
   \<and> GetSearchRegex book (panel\<lparr>cbFind := ''a.b'', cbSearchMode := SearchMode_Regex,
                                  m_RegexOptionDotAll := True\<rparr>) = ''(?s)a.b''
   \<and> m_SpellCheck (panel\<lparr>m_SpellCheck := True\<rparr>)
   \<and> GetSearchRegex book (panel\<lparr>m_SpellCheck := True\<rparr>) = []"
proof -
  let ?c = "panel\<lparr>cbFind := ''a.b'', cbSearchMode := SearchMode_Case_Sensitive\<rparr>"
  let ?r = "panel\<lparr>cbFind := ''a.b'', cbSearchMode := SearchMode_Regex,
                   m_RegexOptionDotAll := True\<rparr>"
  let ?k = "panel\<lparr>m_SpellCheck := True\<rparr>"
  have n: "\<not> m_SpellCheck panel \<and> GetSearchMode panel = SearchMode_Normal" by code_simp
  have nv: "PrependRegexOptionToSearch REGEX_OPTION_IGNORE_CASE
              (escape book (replace_R_by_newline book (cbFind panel))) = ''(?i)cat''"
    by code_simp
  have c: "\<not> m_SpellCheck ?c \<and> GetSearchMode ?c = SearchMode_Case_Sensitive" by code_simp
  have cv: "escape book (replace_R_by_newline book (cbFind ?c))
              = [CHR ''a'', CHR 0x5C, CHR ''.'', CHR ''b'']"
    by code_simp
  have r: "\<not> m_SpellCheck ?r \<and> GetSearchMode ?r = SearchMode_Regex" by code_simp
  have rv: "(if m_RegexOptionMinimalMatch ?r
             then PrependRegexOptionToSearch REGEX_OPTION_MINIMAL_MATCH else id)
              ((if m_RegexOptionDotAll ?r
                then PrependRegexOptionToSearch REGEX_OPTION_DOT_ALL else id)
                 (replace_R_by_newline book (cbFind ?r))) = ''(?s)a.b''"
    by code_simp
  have k: "m_SpellCheck ?k" by simp
  from GetSearchRegex_composed [of panel book] n nv
  have 1: "GetSearchRegex book panel = ''(?i)cat''" by metis
  from GetSearchRegex_composed [of ?c book] c cv
  have 2: "GetSearchRegex book ?c = [CHR ''a'', CHR 0x5C, CHR ''.'', CHR ''b'']" by metis
  from GetSearchRegex_composed [of ?r book] r rv
  have 3: "GetSearchRegex book ?r = ''(?s)a.b''" by metis
  from GetSearchRegex_composed [of ?k book] k
  have 4: "GetSearchRegex book ?k = []" by blast
  from n c r k 1 2 3 4 show ?thesis by blast
qed

subsection \<open>The operations\<close>

lemma SetFirstResource_fields:
  assumes "SetFirstResource c u s = Inr s0"
  shows "cbFind s0 = cbFind s \<and> cbReplace s0 = cbReplace s
       \<and> cbSearchMode s0 = cbSearchMode s \<and> cbLookWhere s0 = cbLookWhere s
       \<and> cbSearchDirection s0 = cbSearchDirection s
       \<and> m_RegexOptionDotAll s0 = m_RegexOptionDotAll s
       \<and> m_RegexOptionMinimalMatch s0 = m_RegexOptionMinimalMatch s
       \<and> m_RegexOptionAutoTokenise s0 = m_RegexOptionAutoTokenise s
       \<and> m_OptionWrap s0 = m_OptionWrap s \<and> m_SpellCheck s0 = m_SpellCheck s
       \<and> m_LookWhereCurrentFile s0 = m_LookWhereCurrentFile s
       \<and> MarkedTextIndicator s0 = MarkedTextIndicator s
       \<and> notifications (calls s0) = notifications (calls s)"
  using assms
  by (auto simp: SetFirstResource_def OpenResource_def log_call_def Let_def notifications_def
        split: if_splits sum.splits prod.splits)

lemma NewSearchReset_fields:
  assumes "NewSearchReset c s = Inr s0"
  shows "cbFind s0 = cbFind s \<and> cbReplace s0 = cbReplace s
       \<and> cbSearchMode s0 = cbSearchMode s \<and> cbLookWhere s0 = cbLookWhere s
       \<and> cbSearchDirection s0 = cbSearchDirection s
       \<and> m_RegexOptionDotAll s0 = m_RegexOptionDotAll s
       \<and> m_RegexOptionMinimalMatch s0 = m_RegexOptionMinimalMatch s
       \<and> m_RegexOptionAutoTokenise s0 = m_RegexOptionAutoTokenise s
       \<and> m_OptionWrap s0 = m_OptionWrap s \<and> m_SpellCheck s0 = m_SpellCheck s
       \<and> m_LookWhereCurrentFile s0 = m_LookWhereCurrentFile s
       \<and> MarkedTextIndicator s0 = MarkedTextIndicator s
       \<and> notifications (calls s0) = notifications (calls s)"
proof (cases "IsNewSearch s")
  case True
  with assms obtain s' where 1: "SetFirstResource c True s = Inr s'"
    and 2: "s0 = SetPreviousSearch s'"
    by (auto simp: NewSearchReset_def split: sum.splits)
  from SetFirstResource_fields [OF 1] 2 show ?thesis
    by (simp add: SetPreviousSearch_def)
next
  case False
  with assms show ?thesis by (simp add: NewSearchReset_def)
qed

lemma NewSearchReset_guards:
  assumes "NewSearchReset c s = Inr s0"
  shows "IsValidFindText s0 = IsValidFindText s" "corpus_scope s0 = corpus_scope s"
    "GetSearchDirection s0 = GetSearchDirection s"
  using NewSearchReset_fields [OF assms]
  by (simp_all add: IsValidFindText_def corpus_scope_def isWhereCF_def GetLookWhere_def
        IsMarkedText_def GetSearchDirection_def)

lemma remove1_current_absent: "distinct xs \<Longrightarrow> x \<notin> set (remove1 x xs)"
  by simp

lemma GetFilesToSearch_distinct:
  "distinct (ScopedResources c s) \<Longrightarrow> distinct (GetFilesToSearch c s)"
  using GetFilesToSearch_distinct_paths [of "\<lambda>r. r" c s] by simp

lemma log_call_frame:
  "m_MainWindow (log_call e s) = m_MainWindow s"
  "m_OptionWrap (log_call e s) = m_OptionWrap s"
  "calls (log_call e s) = calls s @ [e]"
  "GetSearchRegex c (log_call e s) = GetSearchRegex c s"
  "GetSearchableDirection (log_call e s) = GetSearchableDirection s"
  "IsMarkedText (log_call e s) = IsMarkedText s"
  "cbReplace (log_call e s) = cbReplace s"
  by (simp_all add: log_call_def GetSearchRegex_def GetSearchableDirection_def
        GetSearchDirection_def GetSearchMode_def IsMarkedText_def Let_def)

lemma NewSearchReset_calls:
  assumes "NewSearchReset c s = Inr s0"
  shows "\<exists>opened. length opened \<le> 1 \<and> calls s0 = calls s @ map Call_OpenResource opened"
proof (cases "calls s0 = calls s")
  case True
  then have "length ([] :: 'a list) \<le> 1 \<and> calls s0 = calls s @ map Call_OpenResource []"
    by simp
  then show ?thesis by blast
next
  case False
  with assms obtain r where "calls s0 = calls s @ [Call_OpenResource r]"
    by (auto simp: NewSearchReset_def SetFirstResource_def SetPreviousSearch_def
          OpenResource_def log_call_def Let_def
          split: if_splits sum.splits prod.splits)
  then have "length [r] \<le> 1 \<and> calls s0 = calls s @ map Call_OpenResource [r]"
    by simp
  then show ?thesis by blast
qed

text \<open>
  C7, as the code has it. Take a call of Count over a set of files: the scope is not
  the current file, the search is not restricted to the current file, no text is
  marked. Count first makes the reset of a new search, which opens at most one
  resource and makes no other call. When the reset fails, Count fails with it. When the
  reset returns, leaving the state \<open>s0\<close>, and the find text is empty, Count returns 0
  and the state \<open>s0\<close>: it has counted nothing. Otherwise let \<open>s1\<close> be \<open>s0\<close> after the
  content of the tab is saved. Without wrap, the bulk count runs once, over the files
  to search with the first occurrence of the current resource removed; when the
  current tab can be searched, the count of its text editor is taken once and added,
  as an \<^verbatim>\<open>int\<close>, and the call returns the sum, having made exactly these two calls;
  when it cannot, the call returns the bulk count alone. In a scope that lists no
  resource twice the current resource is in no bulk count without wrap. With wrap, the
  bulk count runs over all the files of the scope and nothing is added: the call has
  made this one call.
\<close>

theorem Count_current_file_once:
  assumes corpus: "corpus_scope s"
      and s1: "s1 = s0\<lparr>m_MainWindow := SaveTabContent c (m_MainWindow s0)\<rparr>"
  shows "(NewSearchReset c s = Inl e \<longrightarrow> Count c s = Inl e)
       \<and> (NewSearchReset c s = Inr s0 \<longrightarrow>
            (\<exists>opened. length opened \<le> 1
               \<and> calls s0 = calls s @ map Call_OpenResource opened))
       \<and> (NewSearchReset c s = Inr s0 \<and> \<not> IsValidFindText s \<longrightarrow>
            Count c s = Inr (0, s0))
       \<and> (NewSearchReset c s = Inr s0 \<and> IsValidFindText s
            \<and> \<not> m_OptionWrap s \<and> GetSearchableContent c (m_MainWindow s1) \<longrightarrow>
            Count c s =
              Inr (SearchOperations_CountInFiles c (m_MainWindow s1) (GetSearchRegex c s1)
                     (remove1 (GetCurrentResource c s1) (GetFilesToSearch c s1))
                   + Searchable_Count c (m_MainWindow s1) (GetSearchRegex c s1)
                       (GetSearchableDirection s1) False False,
                   s1\<lparr>calls := calls s0 @
                        [Call_CountInFiles
                           (remove1 (GetCurrentResource c s1) (GetFilesToSearch c s1)),
                         Call_SearchableCount]\<rparr>))
       \<and> (NewSearchReset c s = Inr s0 \<and> IsValidFindText s
            \<and> \<not> m_OptionWrap s \<and> \<not> GetSearchableContent c (m_MainWindow s1) \<longrightarrow>
            Count c s =
              Inr (SearchOperations_CountInFiles c (m_MainWindow s1) (GetSearchRegex c s1)
                     (remove1 (GetCurrentResource c s1) (GetFilesToSearch c s1)),
                   s1\<lparr>calls := calls s0 @
                        [Call_CountInFiles
                           (remove1 (GetCurrentResource c s1) (GetFilesToSearch c s1))]\<rparr>))
       \<and> (distinct (ScopedResources c s1) \<longrightarrow>
            GetCurrentResource c s1
              \<notin> set (remove1 (GetCurrentResource c s1) (GetFilesToSearch c s1)))
       \<and> (NewSearchReset c s = Inr s0 \<and> IsValidFindText s \<and> m_OptionWrap s \<longrightarrow>
            Count c s =
              Inr (SearchOperations_CountInFiles c (m_MainWindow s1) (GetSearchRegex c s1)
                     (ScopedResources c s1),
                   s1\<lparr>calls := calls s0 @ [Call_CountInFiles (ScopedResources c s1)]\<rparr>))"
proof -
  have failed: "NewSearchReset c s = Inl e \<longrightarrow> Count c s = Inl e"
    by (simp add: Count_def)
  have opened: "NewSearchReset c s = Inr s0 \<longrightarrow>
      (\<exists>opened. length opened \<le> 1 \<and> calls s0 = calls s @ map Call_OpenResource opened)"
    using NewSearchReset_calls [of c s s0] by blast
  have absent: "distinct (ScopedResources c s1) \<longrightarrow>
      GetCurrentResource c s1 \<notin> set (remove1 (GetCurrentResource c s1) (GetFilesToSearch c s1))"
    using GetFilesToSearch_distinct [of c s1] by (simp add: remove1_current_absent)
  have returned: "?thesis" if reset: "NewSearchReset c s = Inr s0"
  proof -
    from NewSearchReset_guards [OF reset] corpus
    have v0: "IsValidFindText s0 = IsValidFindText s" and c0: "corpus_scope s0" by simp_all
    from NewSearchReset_fields [OF reset] have w0: "m_OptionWrap s0 = m_OptionWrap s" by simp
    have w1: "m_OptionWrap s1 = m_OptionWrap s0" by (simp add: s1)
    have empty: "\<not> IsValidFindText s \<longrightarrow> Count c s = Inr (0, s0)"
      using reset v0 by (simp add: Count_def)
    have cnt: "IsValidFindText s \<Longrightarrow> Count c s =
        (let (count, s) = CountInFiles c s0
         in if \<not> m_OptionWrap s then
              (if GetSearchableContent c (m_MainWindow s)
               then Inr (count + Searchable_Count c (m_MainWindow s) (GetSearchRegex c s)
                                   (GetSearchableDirection s) (m_OptionWrap s) False,
                         log_call Call_SearchableCount s)
               else Inr (count, s))
            else Inr (count, s))"
      using reset v0 c0 by (simp add: Count_def corpus_scope_def)
    have cif: "CountInFiles c s0 =
        (SearchOperations_CountInFiles c (m_MainWindow s1) (GetSearchRegex c s1)
           (if \<not> m_OptionWrap s then remove1 (GetCurrentResource c s1) (GetFilesToSearch c s1)
            else GetFilesToSearch c s1),
         log_call (Call_CountInFiles
           (if \<not> m_OptionWrap s then remove1 (GetCurrentResource c s1) (GetFilesToSearch c s1)
            else GetFilesToSearch c s1)) s1)"
      by (simp add: CountInFiles_def Let_def s1 [symmetric] w1 w0)
    have full: "m_OptionWrap s \<Longrightarrow> GetFilesToSearch c s1 = ScopedResources c s1"
      by (simp add: GetFilesToSearch_def Let_def w1 w0)
    show ?thesis
    proof (cases "IsValidFindText s")
      case False
      with reset empty opened absent show ?thesis by simp
    next
      case valid: True
      show ?thesis
      proof (cases "m_OptionWrap s")
        case True
        with full have "GetFilesToSearch c s1 = ScopedResources c s1" by simp
        with True valid reset opened absent show ?thesis
          unfolding cnt [OF valid] cif
          by (simp add: log_call_frame w1 w0) (simp add: s1 log_call_def)
      next
        case False
        with valid reset opened absent show ?thesis
          unfolding cnt [OF valid] cif
          by (simp add: log_call_frame w1 w0) (simp add: s1 log_call_def)
      qed
    qed
  qed
  show ?thesis
  proof (cases "NewSearchReset c s")
    case (Inl e')
    with failed absent show ?thesis by (simp add: Count_def)
  next
    case (Inr s0')
    show ?thesis
    proof (cases "s0' = s0")
      case True
      with Inr returned show ?thesis by simp
    next
      case False
      with Inr absent show ?thesis by simp
    qed
  qed
qed

theorem Count_current_file_once_witness:
  "corpus_scope panel \<and> NewSearchReset book panel = Inr panel \<and> IsValidFindText panel
   \<and> \<not> m_OptionWrap panel
   \<and> GetSearchableContent book (SaveTabContent book (m_MainWindow panel))
   \<and> distinct (ScopedResources book panel)
   \<and> (\<exists>s'. Count book panel = Inr (2, s')
            \<and> calls s' = [Call_CountInFiles [2, 3], Call_SearchableCount])
   \<and> NewSearchReset book
        (panel\<lparr>m_OptionWrap := True, m_PreviousSearch := [''cat'', ''dog'', ''NL WR DN AH'']\<rparr>)
       = Inr (panel\<lparr>m_OptionWrap := True,
                      m_PreviousSearch := [''cat'', ''dog'', ''NL WR DN AH'']\<rparr>)
   \<and> (\<exists>s'. Count book
              (panel\<lparr>m_OptionWrap := True,
                     m_PreviousSearch := [''cat'', ''dog'', ''NL WR DN AH'']\<rparr>) = Inr (2, s')
            \<and> calls s' = [Call_CountInFiles [1, 2, 3]])
   \<and> \<not> GetSearchableContent book (30, False)
   \<and> (\<exists>s'. Count book (panel\<lparr>m_MainWindow := (30, False)\<rparr>) = Inr (2, s')
            \<and> calls s' = [Call_CountInFiles [1, 2, 3]])
   \<and> \<not> IsValidFindText (panel\<lparr>cbFind := [], m_PreviousSearch := [[], ''dog'', ''NL DN AH'']\<rparr>)
   \<and> Count book (panel\<lparr>cbFind := [], m_PreviousSearch := [[], ''dog'', ''NL DN AH'']\<rparr>)
       = Inr (0, panel\<lparr>cbFind := [], m_PreviousSearch := [[], ''dog'', ''NL DN AH'']\<rparr>)
   \<and> corpus_scope (panel\<lparr>cbLookWhere := LookWhere_SelectedCSSFiles\<rparr>)
   \<and> Count book (panel\<lparr>cbLookWhere := LookWhere_SelectedCSSFiles\<rparr>) = Inl OutOfBounds"
proof -
  let ?s1 = "panel\<lparr>m_MainWindow := SaveTabContent book (m_MainWindow panel)\<rparr>"
  let ?files = "remove1 (GetCurrentResource book ?s1) (GetFilesToSearch book ?s1)"
  let ?n = "SearchOperations_CountInFiles book (m_MainWindow ?s1) (GetSearchRegex book ?s1) ?files
            + Searchable_Count book (m_MainWindow ?s1) (GetSearchRegex book ?s1)
                (GetSearchableDirection ?s1) False False"
  let ?s' = "?s1\<lparr>calls := calls panel @ [Call_CountInFiles ?files, Call_SearchableCount]\<rparr>"
  have reset: "NewSearchReset book panel = Inr panel" by code_simp
  have valid: "IsValidFindText panel" by code_simp
  have corpus: "corpus_scope panel" by code_simp
  have pre: "\<not> m_OptionWrap panel \<and> GetSearchableContent book (m_MainWindow ?s1)"
    by code_simp
  have d: "distinct (ScopedResources book panel)" by code_simp
  have n: "?n = 2" by code_simp
  have l: "calls ?s' = [Call_CountInFiles [2, 3], Call_SearchableCount]" by code_simp
  from Count_current_file_once [OF corpus refl, of book _ panel] reset valid pre
  have "Count book panel = Inr (?n, ?s')" by blast
  with n have "Count book panel = Inr (2, ?s')" by simp
  with l have 1: "\<exists>s'. Count book panel = Inr (2, s')
      \<and> calls s' = [Call_CountInFiles [2, 3], Call_SearchableCount]"
    by blast
  from pre have sc: "GetSearchableContent book (SaveTabContent book (m_MainWindow panel))"
    by simp
  let ?w = "panel\<lparr>m_OptionWrap := True, m_PreviousSearch := [''cat'', ''dog'', ''NL WR DN AH'']\<rparr>"
  let ?w1 = "?w\<lparr>m_MainWindow := SaveTabContent book (m_MainWindow ?w)\<rparr>"
  let ?m = "SearchOperations_CountInFiles book (m_MainWindow ?w1) (GetSearchRegex book ?w1)
              (ScopedResources book ?w1)"
  let ?w' = "?w1\<lparr>calls := calls ?w @ [Call_CountInFiles (ScopedResources book ?w1)]\<rparr>"
  have reset': "NewSearchReset book ?w = Inr ?w" by code_simp
  have valid': "IsValidFindText ?w" by code_simp
  have corpus': "corpus_scope ?w" by code_simp
  have wrap: "m_OptionWrap ?w" by simp
  have m: "?m = 2" by code_simp
  have l': "calls ?w' = [Call_CountInFiles [1, 2, 3]]" by code_simp
  from Count_current_file_once [OF corpus' refl, of book _ ?w] reset' valid' wrap
  have "Count book ?w = Inr (?m, ?w')" by blast
  with m have "Count book ?w = Inr (2, ?w')" by simp
  with l' have 2: "\<exists>s'. Count book ?w = Inr (2, s') \<and> calls s' = [Call_CountInFiles [1, 2, 3]]"
    by blast
  let ?i = "panel\<lparr>m_MainWindow := (30, False)\<rparr>"
  let ?i1 = "?i\<lparr>m_MainWindow := SaveTabContent book (m_MainWindow ?i)\<rparr>"
  let ?ifiles = "remove1 (GetCurrentResource book ?i1) (GetFilesToSearch book ?i1)"
  let ?k = "SearchOperations_CountInFiles book (m_MainWindow ?i1) (GetSearchRegex book ?i1)
              ?ifiles"
  let ?i' = "?i1\<lparr>calls := calls ?i @ [Call_CountInFiles ?ifiles]\<rparr>"
  have reset'': "NewSearchReset book ?i = Inr ?i" by code_simp
  have valid'': "IsValidFindText ?i" by code_simp
  have corpus'': "corpus_scope ?i" by code_simp
  have pre'': "\<not> m_OptionWrap ?i \<and> \<not> GetSearchableContent book (m_MainWindow ?i1)"
    by code_simp
  have ns: "\<not> GetSearchableContent book (30, False)" by code_simp
  have k: "?k = 2" by code_simp
  have l'': "calls ?i' = [Call_CountInFiles [1, 2, 3]]" by code_simp
  from Count_current_file_once [OF corpus'' refl, of book _ ?i] reset'' valid'' pre''
  have "Count book ?i = Inr (?k, ?i')" by blast
  with k have "Count book ?i = Inr (2, ?i')" by simp
  with l'' have 3: "\<exists>s'. Count book ?i = Inr (2, s') \<and> calls s' = [Call_CountInFiles [1, 2, 3]]"
    by blast
  let ?e = "panel\<lparr>cbFind := [], m_PreviousSearch := [[], ''dog'', ''NL DN AH'']\<rparr>"
  have corpus_e: "corpus_scope ?e" by code_simp
  have reset_e: "NewSearchReset book ?e = Inr ?e" by code_simp
  have invalid: "\<not> IsValidFindText ?e" by code_simp
  from Count_current_file_once [OF corpus_e refl, of book _ ?e] reset_e invalid
  have 4: "Count book ?e = Inr (0, ?e)" by blast
  let ?f = "panel\<lparr>cbLookWhere := LookWhere_SelectedCSSFiles\<rparr>"
  have corpus_f: "corpus_scope ?f" by code_simp
  have reset_f: "NewSearchReset book ?f = Inl OutOfBounds" by code_simp
  from Count_current_file_once [OF corpus_f refl, of book OutOfBounds] reset_f
  have 5: "Count book ?f = Inl OutOfBounds" by blast
  from corpus reset valid pre sc d 1 reset' 2 ns 3 invalid 4 corpus_f 5 show ?thesis by blast
qed

text \<open>
  C7 as the specification states it, for every call of Count over a set of files
  without wrap, fails at the tests it leaves out. With an empty find text Count
  returns 0 and has made no call, where a bulk count and a count of the current tab
  would give 2. In the tab of an image, which cannot be searched, Count returns the
  bulk count and has made no count of the current tab.
\<close>

theorem Count_guards_counterexample:
  "corpus_scope (panel\<lparr>cbFind := [], m_PreviousSearch := [[], ''dog'', ''NL DN AH'']\<rparr>)
   \<and> \<not> m_OptionWrap (panel\<lparr>cbFind := [], m_PreviousSearch := [[], ''dog'', ''NL DN AH'']\<rparr>)
   \<and> Count book (panel\<lparr>cbFind := [], m_PreviousSearch := [[], ''dog'', ''NL DN AH'']\<rparr>)
       = Inr (0, panel\<lparr>cbFind := [], m_PreviousSearch := [[], ''dog'', ''NL DN AH'']\<rparr>)
   \<and> calls (panel\<lparr>cbFind := [], m_PreviousSearch := [[], ''dog'', ''NL DN AH'']\<rparr>) = []
   \<and> SearchOperations_CountInFiles book (1, False) ''(?i)''
         (remove1 1
            (GetFilesToSearch book
               (panel\<lparr>cbFind := [], m_PreviousSearch := [[], ''dog'', ''NL DN AH'']\<rparr>)))
       + Searchable_Count book (1, False) ''(?i)'' Direction_Down False False = 2
   \<and> corpus_scope (panel\<lparr>m_MainWindow := (30, False)\<rparr>)
   \<and> \<not> m_OptionWrap (panel\<lparr>m_MainWindow := (30, False)\<rparr>)
   \<and> map_sum id (\<lambda>(n, s). (n, calls s)) (Count book (panel\<lparr>m_MainWindow := (30, False)\<rparr>))
       = Inr (2, [Call_CountInFiles [1, 2, 3]])"
  by code_simp

text \<open>
  The count is an \<^verbatim>\<open>int\<close>: past 2147483647 the sum wraps. With a bulk count of
  2147483647 and two matches in the current tab, file 3, Count returns -2147483647.
\<close>

lemma Count_int_wraps:
  "map_sum id fst
     (Count (book\<lparr>SearchOperations_CountInFiles := (\<lambda>h regex files. 2147483647)\<rparr>)
        (panel\<lparr>m_MainWindow := (3, False)\<rparr>)) = Inr (- 2147483647)"
  by code_simp

lemma main_window_frame:
  "GetSearchRegex c (s\<lparr>m_MainWindow := h\<rparr>) = GetSearchRegex c s"
  "GetSearchableDirection (s\<lparr>m_MainWindow := h\<rparr>) = GetSearchableDirection s"
  "IsMarkedText (s\<lparr>m_MainWindow := h\<rparr>) = IsMarkedText s"
  "IsValidFindText (s\<lparr>m_MainWindow := h\<rparr>) = IsValidFindText s"
  "corpus_scope (s\<lparr>m_MainWindow := h\<rparr>) = corpus_scope s"
  by (simp_all add: GetSearchRegex_def GetSearchableDirection_def GetSearchDirection_def
        GetSearchMode_def IsMarkedText_def IsValidFindText_def corpus_scope_def isWhereCF_def
        GetLookWhere_def Let_def)

lemma ReplaceInAllFiles_result:
  "ReplaceInAllFiles c s =
     (fst (SearchOperations_ReplaceInAllFIles c (SaveTabContent c (m_MainWindow s))
             (GetSearchRegex c s) (cbReplace s)
             (if \<not> m_OptionWrap s
              then remove1
                     (GetCurrentResource c (s\<lparr>m_MainWindow := SaveTabContent c (m_MainWindow s)\<rparr>))
                     (GetFilesToSearch c (s\<lparr>m_MainWindow := SaveTabContent c (m_MainWindow s)\<rparr>))
              else GetFilesToSearch c (s\<lparr>m_MainWindow := SaveTabContent c (m_MainWindow s)\<rparr>))),
      s\<lparr>m_MainWindow :=
           snd (SearchOperations_ReplaceInAllFIles c (SaveTabContent c (m_MainWindow s))
                  (GetSearchRegex c s) (cbReplace s)
                  (if \<not> m_OptionWrap s
                   then remove1
                          (GetCurrentResource c
                             (s\<lparr>m_MainWindow := SaveTabContent c (m_MainWindow s)\<rparr>))
                          (GetFilesToSearch c
                             (s\<lparr>m_MainWindow := SaveTabContent c (m_MainWindow s)\<rparr>))
                   else GetFilesToSearch c
                          (s\<lparr>m_MainWindow := SaveTabContent c (m_MainWindow s)\<rparr>))),
         calls := calls s @
           [Call_ReplaceInAllFiles
              (if \<not> m_OptionWrap s
               then remove1
                      (GetCurrentResource c (s\<lparr>m_MainWindow := SaveTabContent c (m_MainWindow s)\<rparr>))
                      (GetFilesToSearch c (s\<lparr>m_MainWindow := SaveTabContent c (m_MainWindow s)\<rparr>))
               else GetFilesToSearch c
                      (s\<lparr>m_MainWindow := SaveTabContent c (m_MainWindow s)\<rparr>))]\<rparr>)"
  by (simp add: ReplaceInAllFiles_def Let_def split_beta log_call_def main_window_frame)

lemma Searchable_ReplaceAll_call_result:
  "Searchable_ReplaceAll_call c marked s =
     (fst (Searchable_ReplaceAll c (m_MainWindow s) (GetSearchRegex c s) (cbReplace s)
             (GetSearchableDirection s) (m_OptionWrap s) marked),
      s\<lparr>m_MainWindow :=
           snd (Searchable_ReplaceAll c (m_MainWindow s) (GetSearchRegex c s) (cbReplace s)
                  (GetSearchableDirection s) (m_OptionWrap s) marked),
         calls := calls s @ [Call_SearchableReplaceAll]\<rparr>)"
  by (simp add: Searchable_ReplaceAll_call_def Let_def split_beta log_call_def)

lemma ReplaceAll_finish_result:
  "ReplaceAll_finish n s =
     (n, s\<lparr>calls := calls s @
               (if 0 <s n then [Call_SetModified True, Call_ContentChangedExternally]
                else [])\<rparr>)"
  by (simp add: ReplaceAll_finish_def Let_def log_call_def)

lemma calls_frame:
  "GetSearchRegex c (s\<lparr>calls := k\<rparr>) = GetSearchRegex c s"
  "GetSearchableDirection (s\<lparr>calls := k\<rparr>) = GetSearchableDirection s"
  "IsMarkedText (s\<lparr>calls := k\<rparr>) = IsMarkedText s"
  by (simp_all add: GetSearchRegex_def GetSearchableDirection_def GetSearchDirection_def
        GetSearchMode_def IsMarkedText_def Let_def)

lemma ReplaceAll_unfolded:
  assumes reset:
        "NewSearchReset c (s\<lparr>m_MainWindow := SaveTabContent c (m_MainWindow s)\<rparr>) = Inr s0"
      and s1: "s1 = s0\<lparr>m_MainWindow := SaveTabContent c (m_MainWindow s0)\<rparr>"
      and files: "files = (if m_OptionWrap s then ScopedResources c s1
                           else remove1 (GetCurrentResource c s1) (GetFilesToSearch c s1))"
      and bulk: "bulk = SearchOperations_ReplaceInAllFIles c (m_MainWindow s1)
                          (GetSearchRegex c s0) (cbReplace s0) files"
      and tab: "tab = Searchable_ReplaceAll c (snd bulk) (GetSearchRegex c s0) (cbReplace s0)
                        (GetSearchableDirection s0) False False"
      and own: "own = Searchable_ReplaceAll c (m_MainWindow s0) (GetSearchRegex c s0)
                        (cbReplace s0) (GetSearchableDirection s0) (m_OptionWrap s0)
                        (IsMarkedText s0)"
  shows "ReplaceAll c s =
       (if \<not> IsValidFindText s then Inr (0, s0)
        else if \<not> corpus_scope s then
          (if \<not> GetSearchableContent c (m_MainWindow s0) then Inr (0, s0)
           else Inr (fst own,
                     s0\<lparr>m_MainWindow := snd own,
                        calls := calls s0 @ [Call_SearchableReplaceAll]
                          @ (if 0 <s fst own
                             then [Call_SetModified True, Call_ContentChangedExternally]
                             else [])\<rparr>))
        else if \<not> m_OptionWrap s \<and> GetSearchableContent c (snd bulk) then
          Inr (fst bulk + fst tab,
               s0\<lparr>m_MainWindow := snd tab,
                  calls := calls s0
                    @ [Call_ReplaceInAllFiles files, Call_SearchableReplaceAll]
                    @ (if 0 <s fst bulk + fst tab
                       then [Call_SetModified True, Call_ContentChangedExternally]
                       else [])\<rparr>)
        else
          Inr (fst bulk,
               s0\<lparr>m_MainWindow := snd bulk,
                  calls := calls s0 @ [Call_ReplaceInAllFiles files]
                    @ (if 0 <s fst bulk
                       then [Call_SetModified True, Call_ContentChangedExternally]
                       else [])\<rparr>))"
proof -
  from NewSearchReset_guards [OF reset]
  have v0: "IsValidFindText s0 = IsValidFindText s"
    and c0: "corpus_scope s0 = corpus_scope s"
    by (simp_all add: main_window_frame)
  from c0 have cs: "(isWhereCF s0 \<or> m_LookWhereCurrentFile s0 \<or> IsMarkedText s0)
      = (\<not> corpus_scope s)"
    unfolding corpus_scope_def by blast
  from NewSearchReset_fields [OF reset]
  have w0: "m_OptionWrap s0 = m_OptionWrap s" by simp
  have full: "m_OptionWrap s \<Longrightarrow> GetFilesToSearch c s1 = ScopedResources c s1"
    by (simp add: GetFilesToSearch_def Let_def s1 w0)
  have files': "(if \<not> m_OptionWrap s0
                 then remove1 (GetCurrentResource c s1) (GetFilesToSearch c s1)
                 else GetFilesToSearch c s1) = files"
    using full by (simp add: files w0)
  have bulk': "ReplaceInAllFiles c s0 =
      (fst bulk, s0\<lparr>m_MainWindow := snd bulk,
                    calls := calls s0 @ [Call_ReplaceInAllFiles files]\<rparr>)"
    unfolding ReplaceInAllFiles_result s1 [symmetric] files'
    by (simp add: bulk s1)
  have tab': "\<not> m_OptionWrap s \<Longrightarrow> Searchable_ReplaceAll_call c False
        (s0\<lparr>m_MainWindow := snd bulk, calls := calls s0 @ [Call_ReplaceInAllFiles files]\<rparr>) =
      (fst tab,
       s0\<lparr>m_MainWindow := snd tab,
          calls := calls s0 @ [Call_ReplaceInAllFiles files, Call_SearchableReplaceAll]\<rparr>)"
    by (simp add: Searchable_ReplaceAll_call_result main_window_frame calls_frame tab w0)
  have own': "Searchable_ReplaceAll_call c (IsMarkedText s0) s0 =
      (fst own, s0\<lparr>m_MainWindow := snd own,
                   calls := calls s0 @ [Call_SearchableReplaceAll]\<rparr>)"
    by (simp add: Searchable_ReplaceAll_call_result own)
  show ?thesis
  proof (cases "corpus_scope s")
    case False
    with reset v0 show ?thesis
      by (simp add: ReplaceAll_def Let_def cs own' ReplaceAll_finish_result)
  next
    case True
    show ?thesis
    proof (cases "m_OptionWrap s")
      case wrap: True
      with True reset v0 w0 show ?thesis
        by (simp add: ReplaceAll_def Let_def cs bulk' ReplaceAll_finish_result)
    next
      case False
      with True reset v0 w0 tab' [OF False] show ?thesis
        by (simp add: ReplaceAll_def Let_def cs bulk' ReplaceAll_finish_result)
    qed
  qed
qed

lemma ReplaceAll_notifications:
  assumes "ReplaceAll c s = Inr (n, s')"
  shows "notifications (calls s') =
           notifications (calls s)
             @ (if 0 <s n then [Call_SetModified True, Call_ContentChangedExternally] else [])"
proof (cases "NewSearchReset c (s\<lparr>m_MainWindow := SaveTabContent c (m_MainWindow s)\<rparr>)")
  case (Inl e)
  with assms show ?thesis by (simp add: ReplaceAll_def)
next
  case (Inr s0)
  from NewSearchReset_fields [OF Inr]
  have n0: "notifications (calls s0) = notifications (calls s)" by simp
  from assms n0 show ?thesis
    unfolding ReplaceAll_unfolded [OF Inr refl refl refl refl refl]
    by (auto simp: notifications_def split: if_splits)
qed

text \<open>
  C8. ReplaceAll first saves the content of the tab and makes the reset of a new
  search; when the reset fails, ReplaceAll fails with it, and otherwise the reset,
  which leaves the state \<open>s0\<close>, has made no notification. The count that ReplaceAll
  aggregates and returns is 0 when the find text is empty, or when the search is in
  the current file and the tab cannot be searched, and then nothing is replaced; it is
  the count of the replacement in the text editor of the tab when the search is in the
  current file; over a set of files it is the count of the bulk replacement, to which
  the count of the replacement in the text editor of the tab is added, as an \<^verbatim>\<open>int\<close>,
  when wrap is off and the tab can be searched. In each case the calls made after the
  reset are these replacements and then, exactly when the count is greater than zero,
  one mark of the book as modified followed by one notice to the current tab that its
  content changed. So every call of ReplaceAll that returns the count \<open>n\<close> has made
  these two notifications, once each, when \<open>n\<close> is greater than zero, and none
  otherwise.
\<close>

theorem ReplaceAll_notifies_once:
  assumes s1: "s1 = s0\<lparr>m_MainWindow := SaveTabContent c (m_MainWindow s0)\<rparr>"
      and files: "files = (if m_OptionWrap s then ScopedResources c s1
                           else remove1 (GetCurrentResource c s1) (GetFilesToSearch c s1))"
      and bulk: "bulk = SearchOperations_ReplaceInAllFIles c (m_MainWindow s1)
                          (GetSearchRegex c s0) (cbReplace s0) files"
      and tab: "tab = Searchable_ReplaceAll c (snd bulk) (GetSearchRegex c s0) (cbReplace s0)
                        (GetSearchableDirection s0) False False"
      and own: "own = Searchable_ReplaceAll c (m_MainWindow s0) (GetSearchRegex c s0)
                        (cbReplace s0) (GetSearchableDirection s0) (m_OptionWrap s0)
                        (IsMarkedText s0)"
  shows "(NewSearchReset c (s\<lparr>m_MainWindow := SaveTabContent c (m_MainWindow s)\<rparr>) = Inl e
            \<longrightarrow> ReplaceAll c s = Inl e)
       \<and> (NewSearchReset c (s\<lparr>m_MainWindow := SaveTabContent c (m_MainWindow s)\<rparr>) = Inr s0
            \<longrightarrow> notifications (calls s0) = notifications (calls s))
       \<and> (NewSearchReset c (s\<lparr>m_MainWindow := SaveTabContent c (m_MainWindow s)\<rparr>) = Inr s0
            \<and> (\<not> IsValidFindText s
                \<or> \<not> corpus_scope s \<and> \<not> GetSearchableContent c (m_MainWindow s0))
            \<longrightarrow> ReplaceAll c s = Inr (0, s0))
       \<and> (NewSearchReset c (s\<lparr>m_MainWindow := SaveTabContent c (m_MainWindow s)\<rparr>) = Inr s0
            \<and> IsValidFindText s \<and> \<not> corpus_scope s
            \<and> GetSearchableContent c (m_MainWindow s0)
            \<longrightarrow> ReplaceAll c s =
                  Inr (fst own,
                       s0\<lparr>m_MainWindow := snd own,
                          calls := calls s0 @ [Call_SearchableReplaceAll]
                            @ (if 0 <s fst own
                               then [Call_SetModified True, Call_ContentChangedExternally]
                               else [])\<rparr>))
       \<and> (NewSearchReset c (s\<lparr>m_MainWindow := SaveTabContent c (m_MainWindow s)\<rparr>) = Inr s0
            \<and> IsValidFindText s \<and> corpus_scope s
            \<and> \<not> m_OptionWrap s \<and> GetSearchableContent c (snd bulk)
            \<longrightarrow> ReplaceAll c s =
                  Inr (fst bulk + fst tab,
                       s0\<lparr>m_MainWindow := snd tab,
                          calls := calls s0
                            @ [Call_ReplaceInAllFiles files, Call_SearchableReplaceAll]
                            @ (if 0 <s fst bulk + fst tab
                               then [Call_SetModified True, Call_ContentChangedExternally]
                               else [])\<rparr>))
       \<and> (NewSearchReset c (s\<lparr>m_MainWindow := SaveTabContent c (m_MainWindow s)\<rparr>) = Inr s0
            \<and> IsValidFindText s \<and> corpus_scope s
            \<and> (m_OptionWrap s \<or> \<not> GetSearchableContent c (snd bulk))
            \<longrightarrow> ReplaceAll c s =
                  Inr (fst bulk,
                       s0\<lparr>m_MainWindow := snd bulk,
                          calls := calls s0 @ [Call_ReplaceInAllFiles files]
                            @ (if 0 <s fst bulk
                               then [Call_SetModified True, Call_ContentChangedExternally]
                               else [])\<rparr>))
       \<and> (\<forall>n s'. ReplaceAll c s = Inr (n, s') \<longrightarrow>
            notifications (calls s') =
              notifications (calls s)
                @ (if 0 <s n then [Call_SetModified True, Call_ContentChangedExternally]
                   else []))"
proof -
  let ?saved = "s\<lparr>m_MainWindow := SaveTabContent c (m_MainWindow s)\<rparr>"
  note unfolded = ReplaceAll_unfolded [OF _ s1 files bulk tab own]
  have failed: "NewSearchReset c ?saved = Inl e \<longrightarrow> ReplaceAll c s = Inl e"
    by (simp add: ReplaceAll_def)
  have quiet: "NewSearchReset c ?saved = Inr s0 \<longrightarrow>
      notifications (calls s0) = notifications (calls s)"
    using NewSearchReset_fields [of c ?saved s0] by simp
  have nothing_done: "NewSearchReset c ?saved = Inr s0
      \<and> (\<not> IsValidFindText s
          \<or> \<not> corpus_scope s \<and> \<not> GetSearchableContent c (m_MainWindow s0))
      \<longrightarrow> ReplaceAll c s = Inr (0, s0)"
  proof (intro impI, elim conjE)
    assume reset: "NewSearchReset c ?saved = Inr s0"
      and "\<not> IsValidFindText s
           \<or> \<not> corpus_scope s \<and> \<not> GetSearchableContent c (m_MainWindow s0)"
    then show "ReplaceAll c s = Inr (0, s0)"
      by (cases "IsValidFindText s") (simp_all add: unfolded [OF reset])
  qed
  have in_tab: "NewSearchReset c ?saved = Inr s0
      \<and> IsValidFindText s \<and> \<not> corpus_scope s \<and> GetSearchableContent c (m_MainWindow s0)
      \<longrightarrow> ReplaceAll c s =
            Inr (fst own,
                 s0\<lparr>m_MainWindow := snd own,
                    calls := calls s0 @ [Call_SearchableReplaceAll]
                      @ (if 0 <s fst own
                         then [Call_SetModified True, Call_ContentChangedExternally]
                         else [])\<rparr>)"
  proof (intro impI, elim conjE)
    assume reset: "NewSearchReset c ?saved = Inr s0"
      and "IsValidFindText s" "\<not> corpus_scope s" "GetSearchableContent c (m_MainWindow s0)"
    then show "ReplaceAll c s =
            Inr (fst own,
                 s0\<lparr>m_MainWindow := snd own,
                    calls := calls s0 @ [Call_SearchableReplaceAll]
                      @ (if 0 <s fst own
                         then [Call_SetModified True, Call_ContentChangedExternally]
                         else [])\<rparr>)"
      by (simp only: unfolded [OF reset] if_True if_False not_True_eq_False not_False_eq_True)
  qed
  have both: "NewSearchReset c ?saved = Inr s0
      \<and> IsValidFindText s \<and> corpus_scope s
      \<and> \<not> m_OptionWrap s \<and> GetSearchableContent c (snd bulk)
      \<longrightarrow> ReplaceAll c s =
            Inr (fst bulk + fst tab,
                 s0\<lparr>m_MainWindow := snd tab,
                    calls := calls s0
                      @ [Call_ReplaceInAllFiles files, Call_SearchableReplaceAll]
                      @ (if 0 <s fst bulk + fst tab
                         then [Call_SetModified True, Call_ContentChangedExternally]
                         else [])\<rparr>)"
  proof (intro impI, elim conjE)
    assume reset: "NewSearchReset c ?saved = Inr s0"
      and "IsValidFindText s" "corpus_scope s" "\<not> m_OptionWrap s"
        "GetSearchableContent c (snd bulk)"
    then show "ReplaceAll c s =
            Inr (fst bulk + fst tab,
                 s0\<lparr>m_MainWindow := snd tab,
                    calls := calls s0
                      @ [Call_ReplaceInAllFiles files, Call_SearchableReplaceAll]
                      @ (if 0 <s fst bulk + fst tab
                         then [Call_SetModified True, Call_ContentChangedExternally]
                         else [])\<rparr>)"
      by (simp only: unfolded [OF reset] if_True if_False not_True_eq_False not_False_eq_True
            simp_thms)
  qed
  have bulk_alone: "NewSearchReset c ?saved = Inr s0
      \<and> IsValidFindText s \<and> corpus_scope s
      \<and> (m_OptionWrap s \<or> \<not> GetSearchableContent c (snd bulk))
      \<longrightarrow> ReplaceAll c s =
            Inr (fst bulk,
                 s0\<lparr>m_MainWindow := snd bulk,
                    calls := calls s0 @ [Call_ReplaceInAllFiles files]
                      @ (if 0 <s fst bulk
                         then [Call_SetModified True, Call_ContentChangedExternally]
                         else [])\<rparr>)"
  proof (intro impI, elim conjE)
    assume reset: "NewSearchReset c ?saved = Inr s0"
      and valid: "IsValidFindText s" and corpus: "corpus_scope s"
      and "m_OptionWrap s \<or> \<not> GetSearchableContent c (snd bulk)"
    then have "\<not> (\<not> m_OptionWrap s \<and> GetSearchableContent c (snd bulk))" by blast
    with valid corpus show "ReplaceAll c s =
            Inr (fst bulk,
                 s0\<lparr>m_MainWindow := snd bulk,
                    calls := calls s0 @ [Call_ReplaceInAllFiles files]
                      @ (if 0 <s fst bulk
                         then [Call_SetModified True, Call_ContentChangedExternally]
                         else [])\<rparr>)"
      by (simp only: unfolded [OF reset] if_True if_False not_True_eq_False not_False_eq_True
            simp_thms)
  qed
  have told: "\<forall>n s'. ReplaceAll c s = Inr (n, s') \<longrightarrow>
      notifications (calls s') =
        notifications (calls s)
          @ (if 0 <s n then [Call_SetModified True, Call_ContentChangedExternally] else [])"
    using ReplaceAll_notifications [of c s] by blast
  from failed quiet nothing_done in_tab both bulk_alone told show ?thesis
    by (intro conjI)
qed

theorem ReplaceAll_notifies_once_witness:
  "NewSearchReset book (panel\<lparr>m_MainWindow := SaveTabContent book (m_MainWindow panel)\<rparr>)
     = Inr panel
   \<and> IsValidFindText panel \<and> corpus_scope panel \<and> \<not> m_OptionWrap panel
   \<and> ReplaceAll book panel =
       Inr (2, panel\<lparr>calls := [Call_ReplaceInAllFiles [2, 3], Call_SearchableReplaceAll,
                                  Call_SetModified True, Call_ContentChangedExternally]\<rparr>)
   \<and> ReplaceAll book
         (panel\<lparr>m_PreviousSearch := [''cat'', ''dog'', ''NL DN AC''],
                cbLookWhere := LookWhere_AllCSSFiles, m_MainWindow := (10, False)\<rparr>) =
       Inr (0, panel\<lparr>m_PreviousSearch := [''cat'', ''dog'', ''NL DN AC''],
                      cbLookWhere := LookWhere_AllCSSFiles, m_MainWindow := (10, False),
                      calls := [Call_ReplaceInAllFiles [11], Call_SearchableReplaceAll]\<rparr>)
   \<and> \<not> corpus_scope
         (panel\<lparr>m_PreviousSearch := [''cat'', ''dog'', ''NL DN CF''],
                cbLookWhere := LookWhere_CurrentFile, m_MainWindow := (3, False)\<rparr>)
   \<and> ReplaceAll book
         (panel\<lparr>m_PreviousSearch := [''cat'', ''dog'', ''NL DN CF''],
                cbLookWhere := LookWhere_CurrentFile, m_MainWindow := (3, False)\<rparr>) =
       Inr (2, panel\<lparr>m_PreviousSearch := [''cat'', ''dog'', ''NL DN CF''],
                      cbLookWhere := LookWhere_CurrentFile, m_MainWindow := (3, False),
                      calls := [Call_SearchableReplaceAll, Call_SetModified True,
                                Call_ContentChangedExternally]\<rparr>)
   \<and> ReplaceAll book (panel\<lparr>cbLookWhere := LookWhere_SelectedCSSFiles\<rparr>) = Inl OutOfBounds"
proof -
  let ?p1 = "panel\<lparr>m_MainWindow := SaveTabContent book (m_MainWindow panel)\<rparr>"
  let ?pfiles = "if m_OptionWrap panel then ScopedResources book ?p1
                 else remove1 (GetCurrentResource book ?p1) (GetFilesToSearch book ?p1)"
  let ?pbulk = "SearchOperations_ReplaceInAllFIles book (m_MainWindow ?p1)
                  (GetSearchRegex book panel) (cbReplace panel) ?pfiles"
  let ?ptab = "Searchable_ReplaceAll book (snd ?pbulk) (GetSearchRegex book panel)
                 (cbReplace panel) (GetSearchableDirection panel) False False"
  let ?pres = "Inr (fst ?pbulk + fst ?ptab,
                    panel\<lparr>m_MainWindow := snd ?ptab,
                       calls := calls panel
                         @ [Call_ReplaceInAllFiles ?pfiles, Call_SearchableReplaceAll]
                         @ (if 0 <s fst ?pbulk + fst ?ptab
                            then [Call_SetModified True, Call_ContentChangedExternally]
                            else [])\<rparr>)
               :: error + 32 word \<times> (nat, nat \<times> bool) FindReplace"
  have reset: "NewSearchReset book ?p1 = Inr panel" by code_simp
  have guards: "IsValidFindText panel \<and> corpus_scope panel \<and> \<not> m_OptionWrap panel
      \<and> GetSearchableContent book (snd ?pbulk)"
    by code_simp
  have pv: "?pres =
      Inr (2, panel\<lparr>calls := [Call_ReplaceInAllFiles [2, 3], Call_SearchableReplaceAll,
                                 Call_SetModified True, Call_ContentChangedExternally]\<rparr>)"
    by code_simp
  from ReplaceAll_notifies_once [OF refl refl refl refl refl, of book panel _ panel]
    reset guards
  have "ReplaceAll book panel = ?pres" by blast
  from this pv have 1: "ReplaceAll book panel =
      Inr (2, panel\<lparr>calls := [Call_ReplaceInAllFiles [2, 3], Call_SearchableReplaceAll,
                                 Call_SetModified True, Call_ContentChangedExternally]\<rparr>)"
    by (rule trans)
  let ?z = "panel\<lparr>m_PreviousSearch := [''cat'', ''dog'', ''NL DN AC''],
                   cbLookWhere := LookWhere_AllCSSFiles, m_MainWindow := (10, False)\<rparr>"
  let ?z1 = "?z\<lparr>m_MainWindow := SaveTabContent book (m_MainWindow ?z)\<rparr>"
  let ?zfiles = "if m_OptionWrap ?z then ScopedResources book ?z1
                 else remove1 (GetCurrentResource book ?z1) (GetFilesToSearch book ?z1)"
  let ?zbulk = "SearchOperations_ReplaceInAllFIles book (m_MainWindow ?z1)
                  (GetSearchRegex book ?z) (cbReplace ?z) ?zfiles"
  let ?ztab = "Searchable_ReplaceAll book (snd ?zbulk) (GetSearchRegex book ?z)
                 (cbReplace ?z) (GetSearchableDirection ?z) False False"
  let ?zres = "Inr (fst ?zbulk + fst ?ztab,
                    ?z\<lparr>m_MainWindow := snd ?ztab,
                       calls := calls ?z
                         @ [Call_ReplaceInAllFiles ?zfiles, Call_SearchableReplaceAll]
                         @ (if 0 <s fst ?zbulk + fst ?ztab
                            then [Call_SetModified True, Call_ContentChangedExternally]
                            else [])\<rparr>)
               :: error + 32 word \<times> (nat, nat \<times> bool) FindReplace"
  have zreset: "NewSearchReset book ?z1 = Inr ?z" by code_simp
  have zguards: "IsValidFindText ?z \<and> corpus_scope ?z \<and> \<not> m_OptionWrap ?z
      \<and> GetSearchableContent book (snd ?zbulk)"
    by code_simp
  have zv: "?zres =
      Inr (0, ?z\<lparr>calls := [Call_ReplaceInAllFiles [11], Call_SearchableReplaceAll]\<rparr>)"
    by code_simp
  from ReplaceAll_notifies_once [OF refl refl refl refl refl, of book ?z _ ?z]
    zreset zguards
  have "ReplaceAll book ?z = ?zres" by blast
  from this zv have 2: "ReplaceAll book ?z =
      Inr (0, ?z\<lparr>calls := [Call_ReplaceInAllFiles [11], Call_SearchableReplaceAll]\<rparr>)"
    by (rule trans)
  let ?f = "panel\<lparr>m_PreviousSearch := [''cat'', ''dog'', ''NL DN CF''],
                   cbLookWhere := LookWhere_CurrentFile, m_MainWindow := (3, False)\<rparr>"
  let ?f1 = "?f\<lparr>m_MainWindow := SaveTabContent book (m_MainWindow ?f)\<rparr>"
  let ?fown = "Searchable_ReplaceAll book (m_MainWindow ?f) (GetSearchRegex book ?f)
                 (cbReplace ?f) (GetSearchableDirection ?f) (m_OptionWrap ?f) (IsMarkedText ?f)"
  let ?fres = "Inr (fst ?fown,
                    ?f\<lparr>m_MainWindow := snd ?fown,
                       calls := calls ?f @ [Call_SearchableReplaceAll]
                         @ (if 0 <s fst ?fown
                            then [Call_SetModified True, Call_ContentChangedExternally]
                            else [])\<rparr>)
               :: error + 32 word \<times> (nat, nat \<times> bool) FindReplace"
  have freset: "NewSearchReset book ?f1 = Inr ?f" by code_simp
  have fguards: "IsValidFindText ?f \<and> \<not> corpus_scope ?f
      \<and> GetSearchableContent book (m_MainWindow ?f)"
    by code_simp
  have fv: "?fres =
      Inr (2, ?f\<lparr>calls := [Call_SearchableReplaceAll, Call_SetModified True,
                              Call_ContentChangedExternally]\<rparr>)"
    by code_simp
  from ReplaceAll_notifies_once [OF refl refl refl refl refl, of book ?f _ ?f]
    freset fguards
  have "ReplaceAll book ?f = ?fres" by blast
  from this fv have 3: "ReplaceAll book ?f =
      Inr (2, ?f\<lparr>calls := [Call_SearchableReplaceAll, Call_SetModified True,
                              Call_ContentChangedExternally]\<rparr>)"
    by (rule trans)
  let ?e = "panel\<lparr>cbLookWhere := LookWhere_SelectedCSSFiles\<rparr>"
  have ereset: "NewSearchReset book (?e\<lparr>m_MainWindow := SaveTabContent book (m_MainWindow ?e)\<rparr>)
      = Inl OutOfBounds"
    by code_simp
  from ReplaceAll_notifies_once [OF refl refl refl refl refl, of book ?e OutOfBounds] ereset
  have 4: "ReplaceAll book ?e = Inl OutOfBounds" by blast
  from guards have g: "IsValidFindText panel" "corpus_scope panel" "\<not> m_OptionWrap panel"
    by simp_all
  from fguards have nf: "\<not> corpus_scope ?f" by simp
  from reset g 1 2 nf 3 4 show ?thesis by simp
qed

text \<open>
  The count is an \<^verbatim>\<open>int\<close>: past 2147483647 the sum wraps. With a bulk count of
  2147483647 and two replacements in the current tab, file 3, ReplaceAll returns
  -2147483647 and makes no notification.
\<close>

lemma ReplaceAll_int_wraps:
  "map_sum id (\<lambda>(n, s). (n, calls s))
     (ReplaceAll
        (book\<lparr>SearchOperations_ReplaceInAllFIles := (\<lambda>h regex r files. (2147483647, h))\<rparr>)
        (panel\<lparr>m_MainWindow := (3, False)\<rparr>))
     = Inr (- 2147483647, [Call_ReplaceInAllFiles [], Call_SearchableReplaceAll])"
  by code_simp

lemma SetFirstResource_empty_iff:
  "corpus_scope s \<Longrightarrow>
     SetFirstResource c u s = Inl OutOfBounds \<longleftrightarrow> ScopedResources c s = []"
  by (cases "ScopedResources c s")
     (auto simp: SetFirstResource_def corpus_scope_def Let_def QList_first_def QList_last_def
        split: sum.splits prod.splits)

lemma NewSearchReset_empty:
  "corpus_scope s \<Longrightarrow> IsNewSearch s \<Longrightarrow> ScopedResources c s = [] \<Longrightarrow>
     NewSearchReset c s = Inl OutOfBounds"
  using SetFirstResource_empty_iff [of s c True] by (simp add: NewSearchReset_def)

lemma GetControls_m_MainWindow: "GetControls (s\<lparr>m_MainWindow := h\<rparr>) = GetControls s"
  by (simp add: GetControls_def GetSearchMode_def GetSearchDirection_def GetLookWhere_def)

lemma IsNewSearch_m_MainWindow: "IsNewSearch (s\<lparr>m_MainWindow := h\<rparr>) = IsNewSearch s"
  by (simp add: IsNewSearch_def GetControls_m_MainWindow)

text \<open>
  C9. When the search is over a set of files, \<^verbatim>\<open>SetFirstResource\<close> reads the first
  resource of the list of the scope (direction Down) or the last (direction Up) and
  opens it, without testing that the list has one: it reads outside the list exactly
  when the list is empty. Find, Count, Replace and ReplaceAll call it for every new
  search before anything else, ReplaceAll after saving the tab; so a new search over
  a scope whose list is empty fails in each of the four. A search that is not new
  does not call it.
\<close>

theorem SetFirstResource_needs_resources:
  assumes corpus: "corpus_scope s"
  shows "(SetFirstResource c u s = Inl OutOfBounds \<longleftrightarrow> ScopedResources c s = [])
       \<and> (ScopedResources c s \<noteq> [] \<longrightarrow>
            (\<exists>pos. SetFirstResource c u s =
               Inr (OpenResource c
                      (if GetSearchDirection s = SearchDirection_Down
                       then hd (ScopedResources c s) else last (ScopedResources c s))
                      pos s)))
       \<and> (IsNewSearch s \<and> ScopedResources c s = [] \<longrightarrow>
            Find c s = Some (Inl OutOfBounds) \<and> Count c s = Inl OutOfBounds
            \<and> Replace c s = Some (Inl OutOfBounds))
       \<and> (IsNewSearch s
            \<and> ScopedResources c (s\<lparr>m_MainWindow := SaveTabContent c (m_MainWindow s)\<rparr>) = [] \<longrightarrow>
            ReplaceAll c s = Inl OutOfBounds)
       \<and> (\<not> IsNewSearch s \<longrightarrow> NewSearchReset c s = Inr s)"
proof -
  have open_it: "\<exists>pos. SetFirstResource c u s =
      Inr (OpenResource c
             (if GetSearchDirection s = SearchDirection_Down
              then hd (ScopedResources c s) else last (ScopedResources c s)) pos s)"
    if "ScopedResources c s \<noteq> []"
    using that corpus
    by (cases "ScopedResources c s")
       (auto simp: SetFirstResource_def corpus_scope_def Let_def QList_first_def QList_last_def)
  have three: "Find c s = Some (Inl OutOfBounds) \<and> Count c s = Inl OutOfBounds
      \<and> Replace c s = Some (Inl OutOfBounds)"
    if "IsNewSearch s" "ScopedResources c s = []"
    using NewSearchReset_empty [OF corpus that] by (simp add: Find_def Count_def Replace_def)
  have fourth: "ReplaceAll c s = Inl OutOfBounds"
    if n: "IsNewSearch s"
      and e: "ScopedResources c (s\<lparr>m_MainWindow := SaveTabContent c (m_MainWindow s)\<rparr>) = []"
  proof -
    let ?s = "s\<lparr>m_MainWindow := SaveTabContent c (m_MainWindow s)\<rparr>"
    have "corpus_scope ?s" using corpus
      by (simp add: corpus_scope_def isWhereCF_def GetLookWhere_def IsMarkedText_def)
    moreover have "IsNewSearch ?s" using n by (simp add: IsNewSearch_m_MainWindow)
    ultimately have "NewSearchReset c ?s = Inl OutOfBounds"
      using e by (rule NewSearchReset_empty)
    then show ?thesis by (simp add: ReplaceAll_def)
  qed
  have old: "\<not> IsNewSearch s \<longrightarrow> NewSearchReset c s = Inr s"
    by (simp add: NewSearchReset_def)
  from SetFirstResource_empty_iff [OF corpus, of c u] open_it three fourth old
  show ?thesis by blast
qed

theorem SetFirstResource_needs_resources_witness:
  "corpus_scope (panel\<lparr>cbLookWhere := LookWhere_SelectedCSSFiles\<rparr>)
   \<and> IsNewSearch (panel\<lparr>cbLookWhere := LookWhere_SelectedCSSFiles\<rparr>)
   \<and> ScopedResources book (panel\<lparr>cbLookWhere := LookWhere_SelectedCSSFiles\<rparr>) = []
   \<and> SetFirstResource book True (panel\<lparr>cbLookWhere := LookWhere_SelectedCSSFiles\<rparr>)
       = Inl OutOfBounds
   \<and> Find book (panel\<lparr>cbLookWhere := LookWhere_SelectedCSSFiles\<rparr>) = Some (Inl OutOfBounds)
   \<and> Count book (panel\<lparr>cbLookWhere := LookWhere_SelectedCSSFiles\<rparr>) = Inl OutOfBounds
   \<and> Replace book (panel\<lparr>cbLookWhere := LookWhere_SelectedCSSFiles\<rparr>) = Some (Inl OutOfBounds)
   \<and> ReplaceAll book (panel\<lparr>cbLookWhere := LookWhere_SelectedCSSFiles\<rparr>) = Inl OutOfBounds
   \<and> corpus_scope panel \<and> ScopedResources book panel = [1, 2, 3] \<and> \<not> IsNewSearch panel
   \<and> SetFirstResource book True panel \<noteq> Inl OutOfBounds
   \<and> NewSearchReset book panel = Inr panel"
proof -
  let ?s = "panel\<lparr>cbLookWhere := LookWhere_SelectedCSSFiles\<rparr>"
  have corpus: "corpus_scope ?s" by code_simp
  have new: "IsNewSearch ?s" by code_simp
  have e: "ScopedResources book ?s = []" by code_simp
  have e': "ScopedResources book (?s\<lparr>m_MainWindow := SaveTabContent book (m_MainWindow ?s)\<rparr>) = []"
    by code_simp
  from SetFirstResource_needs_resources [OF corpus, of book True] new e e'
  have 1: "SetFirstResource book True ?s = Inl OutOfBounds
      \<and> Find book ?s = Some (Inl OutOfBounds) \<and> Count book ?s = Inl OutOfBounds
      \<and> Replace book ?s = Some (Inl OutOfBounds) \<and> ReplaceAll book ?s = Inl OutOfBounds"
    by blast
  have corpus': "corpus_scope panel" by code_simp
  have old: "\<not> IsNewSearch panel" by code_simp
  have f: "ScopedResources book panel = [1, 2, 3]" by code_simp
  from SetFirstResource_needs_resources [OF corpus', of book True] old f
  have 2: "SetFirstResource book True panel \<noteq> Inl OutOfBounds
      \<and> NewSearchReset book panel = Inr panel"
    by auto
  from corpus new e 1 corpus' f old 2 show ?thesis by blast
qed

text \<open>
  C10, as the code has it. A call of \<^verbatim>\<open>ReplaceText\<close> first makes two tests: the find
  text is not empty and the current tab can be searched. When one of them fails the
  call returns false at once and leaves the state as it is: nothing is replaced and no
  find is made. When both pass and \<^verbatim>\<open>replace_current\<close> is false, the call returns what
  \<^verbatim>\<open>FindText\<close> in the same direction returns from the state that \<^verbatim>\<open>ReplaceSelected\<close>
  leaves, whatever \<^verbatim>\<open>ReplaceSelected\<close> returned; when both pass and \<^verbatim>\<open>replace_current\<close>
  is true, it returns what \<^verbatim>\<open>ReplaceSelected\<close> returned. ReplaceNext and
  ReplacePrevious are the calls down and up with \<^verbatim>\<open>replace_current\<close> false, Replace is
  the one of them in the direction of the panel after the reset of a new search, and
  ReplaceCurrent is the call in the direction of the panel with \<^verbatim>\<open>replace_current\<close>
  true.
\<close>

theorem ReplaceText_returns_find_result:
  "(IsValidFindText s \<and> GetSearchableContent c (m_MainWindow s) \<longrightarrow>
      ReplaceText c direction False s =
        FindText c direction
          (s\<lparr>m_MainWindow :=
               snd (Searchable_ReplaceSelected c (m_MainWindow s) (GetSearchRegex c s)
                      (cbReplace s) direction False)\<rparr>)
      \<and> ReplaceText c direction True s =
          Some (fst (Searchable_ReplaceSelected c (m_MainWindow s) (GetSearchRegex c s)
                       (cbReplace s) direction True),
                s\<lparr>m_MainWindow :=
                     snd (Searchable_ReplaceSelected c (m_MainWindow s) (GetSearchRegex c s)
                            (cbReplace s) direction True)\<rparr>))
   \<and> (\<not> (IsValidFindText s \<and> GetSearchableContent c (m_MainWindow s)) \<longrightarrow>
        ReplaceText c direction replace_current s = Some (False, s))
   \<and> ReplaceNext c s = ReplaceText c Direction_Down False s
   \<and> ReplacePrevious c s = ReplaceText c Direction_Up False s
   \<and> ReplaceCurrent c s = ReplaceText c (GetSearchableDirection s) True s
   \<and> (NewSearchReset c s = Inr s0 \<longrightarrow>
        Replace c s = map_option Inr (ReplaceText c (GetSearchableDirection s0) False s0))"
proof -
  have chained: "IsValidFindText s \<and> GetSearchableContent c (m_MainWindow s) \<longrightarrow>
      ReplaceText c direction False s =
        FindText c direction
          (s\<lparr>m_MainWindow :=
               snd (Searchable_ReplaceSelected c (m_MainWindow s) (GetSearchRegex c s)
                      (cbReplace s) direction False)\<rparr>)"
    by (cases direction)
       (simp_all add: ReplaceText_def Let_def split_beta FindNext_def FindPrevious_def)
  have current: "IsValidFindText s \<and> GetSearchableContent c (m_MainWindow s) \<longrightarrow>
      ReplaceText c direction True s =
        Some (fst (Searchable_ReplaceSelected c (m_MainWindow s) (GetSearchRegex c s)
                     (cbReplace s) direction True),
              s\<lparr>m_MainWindow :=
                   snd (Searchable_ReplaceSelected c (m_MainWindow s) (GetSearchRegex c s)
                          (cbReplace s) direction True)\<rparr>)"
    by (simp add: ReplaceText_def Let_def split_beta)
  have guarded: "\<not> (IsValidFindText s \<and> GetSearchableContent c (m_MainWindow s)) \<longrightarrow>
      ReplaceText c direction replace_current s = Some (False, s)"
    by (simp add: ReplaceText_def)
  have cur: "ReplaceCurrent c s = ReplaceText c (GetSearchableDirection s) True s"
    by (simp add: ReplaceCurrent_def GetSearchableDirection_def)
  have rep: "NewSearchReset c s = Inr s0 \<longrightarrow>
      Replace c s = map_option Inr (ReplaceText c (GetSearchableDirection s0) False s0)"
    by (simp add: Replace_def ReplaceNext_def ReplacePrevious_def GetSearchableDirection_def)
  from chained current guarded cur rep show ?thesis
    by (simp add: ReplaceNext_def ReplacePrevious_def)
qed

theorem ReplaceText_returns_find_result_witness:
  "IsValidFindText (panel\<lparr>cbLookWhere := LookWhere_CurrentFile, m_MainWindow := (3, False)\<rparr>)
   \<and> GetSearchableContent book (3, False)
   \<and> \<not> fst (Searchable_ReplaceSelected book (3, False) ''(?i)cat'' ''dog'' Direction_Down False)
   \<and> map_option fst
        (ReplaceText book Direction_Down False
           (panel\<lparr>cbLookWhere := LookWhere_CurrentFile, m_MainWindow := (3, False)\<rparr>))
       = Some True
   \<and> IsValidFindText (panel\<lparr>cbLookWhere := LookWhere_CurrentFile, m_MainWindow := (1, True)\<rparr>)
   \<and> GetSearchableContent book (1, True)
   \<and> fst (Searchable_ReplaceSelected book (1, True) ''(?i)cat'' ''dog'' Direction_Down False)
   \<and> map_option fst
        (ReplaceText book Direction_Down False
           (panel\<lparr>cbLookWhere := LookWhere_CurrentFile, m_MainWindow := (1, True)\<rparr>))
       = Some False
   \<and> map_option fst
        (ReplaceText book Direction_Down True
           (panel\<lparr>cbLookWhere := LookWhere_CurrentFile, m_MainWindow := (1, True)\<rparr>))
       = Some True
   \<and> \<not> GetSearchableContent book (30, False)
   \<and> ReplaceText book Direction_Down False (panel\<lparr>m_MainWindow := (30, False)\<rparr>)
       = Some (False, panel\<lparr>m_MainWindow := (30, False)\<rparr>)
   \<and> NewSearchReset book panel = Inr panel
   \<and> Replace book panel = map_option Inr (ReplaceText book Direction_Down False panel)"
proof -
  let ?a = "panel\<lparr>cbLookWhere := LookWhere_CurrentFile, m_MainWindow := (3, False)\<rparr>"
  let ?b = "panel\<lparr>cbLookWhere := LookWhere_CurrentFile, m_MainWindow := (1, True)\<rparr>"
  let ?i = "panel\<lparr>m_MainWindow := (30, False)\<rparr>"
  have ga: "IsValidFindText ?a \<and> GetSearchableContent book (m_MainWindow ?a)"
    by code_simp
  have gb: "IsValidFindText ?b \<and> GetSearchableContent book (m_MainWindow ?b)"
    by code_simp
  have gi: "\<not> (IsValidFindText ?i \<and> GetSearchableContent book (m_MainWindow ?i))"
    by code_simp
  have ni: "\<not> GetSearchableContent book (30, False)" by code_simp
  have ra: "\<not> fst (Searchable_ReplaceSelected book (3, False) ''(?i)cat'' ''dog''
                    Direction_Down False)"
    by code_simp
  have rb: "fst (Searchable_ReplaceSelected book (1, True) ''(?i)cat'' ''dog''
                  Direction_Down False)"
    by code_simp
  have fa: "map_option fst
      (FindText book Direction_Down
         (?a\<lparr>m_MainWindow :=
               snd (Searchable_ReplaceSelected book (m_MainWindow ?a) (GetSearchRegex book ?a)
                      (cbReplace ?a) Direction_Down False)\<rparr>)) = Some True"
    by code_simp
  have fb: "map_option fst
      (FindText book Direction_Down
         (?b\<lparr>m_MainWindow :=
               snd (Searchable_ReplaceSelected book (m_MainWindow ?b) (GetSearchRegex book ?b)
                      (cbReplace ?b) Direction_Down False)\<rparr>)) = Some False"
    by code_simp
  have cb: "fst (Searchable_ReplaceSelected book (m_MainWindow ?b) (GetSearchRegex book ?b)
                   (cbReplace ?b) Direction_Down True)"
    by code_simp
  have reset: "NewSearchReset book panel = Inr panel" by code_simp
  have dp: "GetSearchableDirection panel = Direction_Down" by code_simp
  from ReplaceText_returns_find_result [of ?a book Direction_Down] ga
  have "ReplaceText book Direction_Down False ?a =
      FindText book Direction_Down
        (?a\<lparr>m_MainWindow :=
              snd (Searchable_ReplaceSelected book (m_MainWindow ?a) (GetSearchRegex book ?a)
                     (cbReplace ?a) Direction_Down False)\<rparr>)"
    by blast
  with fa have 1: "map_option fst (ReplaceText book Direction_Down False ?a) = Some True"
    by simp
  from ReplaceText_returns_find_result [of ?b book Direction_Down] gb
  have both: "ReplaceText book Direction_Down False ?b =
      FindText book Direction_Down
        (?b\<lparr>m_MainWindow :=
              snd (Searchable_ReplaceSelected book (m_MainWindow ?b) (GetSearchRegex book ?b)
                     (cbReplace ?b) Direction_Down False)\<rparr>)
    \<and> ReplaceText book Direction_Down True ?b =
      Some (fst (Searchable_ReplaceSelected book (m_MainWindow ?b) (GetSearchRegex book ?b)
                   (cbReplace ?b) Direction_Down True),
            ?b\<lparr>m_MainWindow :=
                  snd (Searchable_ReplaceSelected book (m_MainWindow ?b) (GetSearchRegex book ?b)
                         (cbReplace ?b) Direction_Down True)\<rparr>)"
    by blast
  from both fb have 2: "map_option fst (ReplaceText book Direction_Down False ?b) = Some False"
    by simp
  from both cb have 3: "map_option fst (ReplaceText book Direction_Down True ?b) = Some True"
    by simp
  from ReplaceText_returns_find_result [of ?i book Direction_Down False] gi
  have 4: "ReplaceText book Direction_Down False ?i = Some (False, ?i)"
    by blast
  from ReplaceText_returns_find_result [of panel book _ _ panel] reset
  have "Replace book panel =
      map_option Inr (ReplaceText book (GetSearchableDirection panel) False panel)"
    by blast
  with dp have 5: "Replace book panel =
      map_option Inr (ReplaceText book Direction_Down False panel)"
    by simp
  from ga gb have va: "IsValidFindText ?a" and sa: "GetSearchableContent book (3, False)"
    and vb: "IsValidFindText ?b" and sb: "GetSearchableContent book (1, True)"
    by simp_all
  from va sa ra 1 vb sb rb 2 3 ni 4 reset 5 show ?thesis by blast
qed

text \<open>
  C10 as the specification states it, for every call of Replace, ReplaceNext and
  ReplacePrevious, fails in a tab that cannot be searched. With wrap on, the tab of an
  image open and the third HTML file holding a match, nothing is replaced and a find in
  the direction of the panel finds the match and returns true, yet Replace and
  ReplaceNext return false: no find is made.
\<close>

theorem ReplaceText_unsearchable_counterexample:
  "IsValidFindText
     (panel\<lparr>m_OptionWrap := True, m_PreviousSearch := [''cat'', ''dog'', ''NL WR DN AH''],
            m_MainWindow := (30, False)\<rparr>)
   \<and> \<not> IsNewSearch
        (panel\<lparr>m_OptionWrap := True, m_PreviousSearch := [''cat'', ''dog'', ''NL WR DN AH''],
               m_MainWindow := (30, False)\<rparr>)
   \<and> GetSearchableDirection
        (panel\<lparr>m_OptionWrap := True, m_PreviousSearch := [''cat'', ''dog'', ''NL WR DN AH''],
               m_MainWindow := (30, False)\<rparr>) = Direction_Down
   \<and> map_option (map_sum id fst)
        (Replace book
           (panel\<lparr>m_OptionWrap := True, m_PreviousSearch := [''cat'', ''dog'', ''NL WR DN AH''],
                  m_MainWindow := (30, False)\<rparr>)) = Some (Inr False)
   \<and> map_option fst
        (ReplaceNext book
           (panel\<lparr>m_OptionWrap := True, m_PreviousSearch := [''cat'', ''dog'', ''NL WR DN AH''],
                  m_MainWindow := (30, False)\<rparr>)) = Some False
   \<and> map_option (map_sum id fst)
        (Find book
           (panel\<lparr>m_OptionWrap := True, m_PreviousSearch := [''cat'', ''dog'', ''NL WR DN AH''],
                  m_MainWindow := (30, False)\<rparr>)) = Some (Inr True)
   \<and> map_option fst
        (FindText book Direction_Down
           (panel\<lparr>m_OptionWrap := True, m_PreviousSearch := [''cat'', ''dog'', ''NL WR DN AH''],
                  m_MainWindow := (30, False)\<rparr>)) = Some True"
  by code_simp

end
